theory Spec2Isabelle
  imports Main "HOL-Library.Sublist"
begin

section \<open>Strings\<close>

text \<open>
  A JavaScript string is a sequence of UTF-16 code units. The model uses \<^typ>\<open>string\<close>;
  a \<^typ>\<open>char\<close> stands for a code unit below \<open>0x100\<close>. Of the characters that
  \<^verbatim>\<open>String.prototype.trim\<close> and \<^verbatim>\<open>parseInt\<close> skip (WhiteSpace and LineTerminator), these
  are the ones in that range: TAB, LF, VT, FF, CR, SPACE and NBSP.
\<close>

definition is_whitespace :: "char \<Rightarrow> bool" where
  "is_whitespace c =
     (c = CHR 0x09 \<or> c = CHR 0x0A \<or> c = CHR 0x0B \<or> c = CHR 0x0C \<or> c = CHR 0x0D
      \<or> c = CHR 0x20 \<or> c = CHR 0xA0)"

definition trim :: "string \<Rightarrow> string" where
  "trim s = rev (dropWhile is_whitespace (rev (dropWhile is_whitespace s)))"

text \<open>\<^verbatim>\<open>parts.join(sep)\<close>\<close>

fun join :: "string \<Rightarrow> string list \<Rightarrow> string" where
  "join sep [] = []"
| "join sep [x] = x"
| "join sep (x # y # ys) = x @ sep @ join sep (y # ys)"

subsection \<open>Regular expressions\<close>

text \<open>
  The source uses three regular expressions with \<^verbatim>\<open>test\<close>:
  \<^verbatim>\<open>/max[_-]?tokens|max_completion_tokens/i\<close>, \<^verbatim>\<open>/anthropic\.com/i\<close> and \<^verbatim>\<open>/o[124]/\<close>.
  They are built from literal characters, character classes, the optional item \<^verbatim>\<open>?\<close> and
  alternation, which is what \<open>rx\<close> covers: an alternative is a list of items, a regular
  expression a list of alternatives.
\<close>

datatype rx = Chr char | Cls "char list" | Opt rx

text \<open>
  The \<^verbatim>\<open>i\<close> flag compares canonicalised characters. Without the \<^verbatim>\<open>u\<close> flag a character
  is canonicalised by upper-casing it, and a non-ASCII character is never mapped to an ASCII
  one; the patterns above are ASCII, so only the ASCII letters need folding.
\<close>

definition canonicalize :: "char \<Rightarrow> char" where
  "canonicalize c =
     (case map_of (zip ''abcdefghijklmnopqrstuvwxyz'' ''ABCDEFGHIJKLMNOPQRSTUVWXYZ'') c of
        Some u \<Rightarrow> u
      | None \<Rightarrow> c)"

definition char_matches :: "bool \<Rightarrow> char \<Rightarrow> char \<Rightarrow> bool" where
  "char_matches ignoreCase c x =
     (if ignoreCase then canonicalize c = canonicalize x else c = x)"

fun match_here :: "bool \<Rightarrow> rx list \<Rightarrow> string \<Rightarrow> bool" where
  "match_here ic [] s = True"
| "match_here ic (Chr c # p) s =
     (case s of [] \<Rightarrow> False | x # xs \<Rightarrow> char_matches ic c x \<and> match_here ic p xs)"
| "match_here ic (Cls cs # p) s =
     (case s of [] \<Rightarrow> False | x # xs \<Rightarrow> list_ex (\<lambda>c. char_matches ic c x) cs \<and> match_here ic p xs)"
| "match_here ic (Opt r # p) s = (match_here ic (r # p) s \<or> match_here ic p s)"

text \<open>\<^verbatim>\<open>regex.test(s)\<close>: some alternative matches at some position of \<open>s\<close>.\<close>

fun rx_test :: "bool \<Rightarrow> rx list list \<Rightarrow> string \<Rightarrow> bool" where
  "rx_test ic alts [] = list_ex (\<lambda>p. match_here ic p []) alts"
| "rx_test ic alts (x # xs) =
     (list_ex (\<lambda>p. match_here ic p (x # xs)) alts \<or> rx_test ic alts xs)"

definition lit :: "string \<Rightarrow> rx list" where
  "lit w = map Chr w"

text \<open>
  \<open>contains_ci w s\<close>: the string \<open>s\<close> contains \<open>w\<close> as a contiguous substring, letter
  case ignored. \<open>contains w s\<close> is the case-sensitive version.
\<close>

definition contains_ci :: "string \<Rightarrow> string \<Rightarrow> bool" where
  "contains_ci w s = sublist (map canonicalize w) (map canonicalize s)"

definition contains :: "string \<Rightarrow> string \<Rightarrow> bool" where
  "contains w s = sublist w s"

section \<open>Compiled constants (settings.ts)\<close>

definition OAI_IMAGE_CAPABLE_MODELS :: "string list" where
  "OAI_IMAGE_CAPABLE_MODELS =
     [''o1'', ''o1-pro'', ''o1-mini'', ''o3'', ''o3-mini'', ''o4-mini'', ''gpt-4o'',
      ''gpt-4o-mini'', ''gpt-4-turbo'', ''gpt-4.1'']"

definition DEFAULT_TEXT_MODEL :: string where
  "DEFAULT_TEXT_MODEL = ''gpt-4o-mini''"

definition DEFAULT_SPEECH_MODEL :: string where
  "DEFAULT_SPEECH_MODEL = ''whisper-1''"

definition DEFAULT_API_BASE_URL :: string where
  "DEFAULT_API_BASE_URL = ''https://api.openai.com/v1''"

definition DEFAULT_MAX_TOKENS :: int where
  "DEFAULT_MAX_TOKENS = 0"

definition ANTHROPIC_API_ROOT :: string where
  "ANTHROPIC_API_ROOT = ''https://api.anthropic.com/v1''"

section \<open>Numbers\<close>

text \<open>
  A JavaScript number is a double. The model keeps \<open>NaN\<close> and the two infinities apart and
  takes a finite number to be the integer it denotes (\<open>-0\<close> and \<open>0\<close> are one value, as under
  \<^verbatim>\<open>===\<close>). Fractions are not modelled, and neither is the rounding of the mantissa: above
  \<open>2^53\<close> a double holds only some of the integers.
\<close>

datatype number = NaN | Infinity | NegInfinity | Fin int

definition isFinite :: "number \<Rightarrow> bool" where
  "isFinite x = (case x of Fin n \<Rightarrow> True | _ \<Rightarrow> False)"

definition isNaN :: "number \<Rightarrow> bool" where
  "isNaN x = (x = NaN)"

text \<open>\<open>num_less x y\<close> is \<^verbatim>\<open>x < y\<close>: false as soon as one side is \<open>NaN\<close>.\<close>

fun num_less :: "number \<Rightarrow> number \<Rightarrow> bool" where
  "num_less NaN y = False"
| "num_less x NaN = False"
| "num_less Infinity y = False"
| "num_less NegInfinity y = (y \<noteq> NegInfinity)"
| "num_less (Fin a) Infinity = True"
| "num_less (Fin a) NegInfinity = False"
| "num_less (Fin a) (Fin b) = (a < b)"

subsection \<open>Numbers and strings\<close>

definition digit_char :: "nat \<Rightarrow> char" where
  "digit_char d = ''0123456789'' ! d"

text \<open>The decimal digits of a natural number, without leading zeros.\<close>

fun dec :: "nat \<Rightarrow> string" where
  "dec n = (if n < 10 then [digit_char n] else dec (n div 10) @ [digit_char (n mod 10)])"

declare dec.simps [simp del]

text \<open>
  \<^verbatim>\<open>Number::toString\<close> on a non-negative integer \<open>x\<close>: the plain digits below \<open>10^21\<close>, and
  from there on the exponent form, \<^verbatim>\<open>1e+21\<close> or \<^verbatim>\<open>1.5e+21\<close>: the digits of \<open>x\<close> without
  its trailing zeros, a point after the first one when there are several, and the decimal
  exponent.
\<close>

definition exponent_form :: "nat \<Rightarrow> string" where
  "exponent_form x =
     (let ds = dec x;
          s = rev (dropWhile (\<lambda>c. c = CHR ''0'') (rev ds));
          mantissa = (case s of [] \<Rightarrow> [] | d # rest \<Rightarrow> if rest = [] then [d] else d # CHR ''.'' # rest)
      in mantissa @ ''e+'' @ dec (length ds - 1))"

definition nat_to_string :: "nat \<Rightarrow> string" where
  "nat_to_string x = (if x < 10 ^ 21 then dec x else exponent_form x)"

fun number_to_string :: "number \<Rightarrow> string" where
  "number_to_string NaN = ''NaN''"
| "number_to_string Infinity = ''Infinity''"
| "number_to_string NegInfinity = ''-Infinity''"
| "number_to_string (Fin n) =
     (if n < 0 then CHR ''-'' # nat_to_string (nat (- n)) else nat_to_string (nat n))"

definition is_digit :: "char \<Rightarrow> bool" where
  "is_digit c = (let n = (of_char c :: nat) in 48 \<le> n \<and> n \<le> 57)"

definition digit_val :: "char \<Rightarrow> nat" where
  "digit_val c = of_char c - 48"

definition digits_value :: "string \<Rightarrow> nat" where
  "digits_value z = foldl (\<lambda>acc c. 10 * acc + digit_val c) 0 z"

text \<open>
  The number value of a mathematical integer: from \<open>2^1024 - 2^970\<close> on, the nearest
  double is an infinity.
\<close>

definition to_number :: "int \<Rightarrow> number" where
  "to_number n =
     (if 2 ^ 1024 - 2 ^ 970 \<le> n then Infinity
      else if n \<le> - (2 ^ 1024 - 2 ^ 970) then NegInfinity
      else Fin n)"

text \<open>
  \<^verbatim>\<open>Number.parseInt(str, 10)\<close>: leading white space is skipped, one sign is read, and the
  longest run of decimal digits that follows is the value; no digit gives \<open>NaN\<close>. With
  the radix given as 10 no \<^verbatim>\<open>0x\<close> prefix is recognised.
\<close>

definition parseInt :: "string \<Rightarrow> number" where
  "parseInt str =
     (let s = dropWhile is_whitespace str;
          sign = (case s of [] \<Rightarrow> 1 | c # r \<Rightarrow> if c = CHR ''-'' then - 1 else (1 :: int));
          s1 = (case s of [] \<Rightarrow> [] | c # r \<Rightarrow> if c = CHR ''-'' \<or> c = CHR ''+'' then r else s);
          z = takeWhile is_digit s1
      in if z = [] then NaN else to_number (sign * int (digits_value z)))"

section \<open>Values\<close>

text \<open>
  The persisted settings are what \<^verbatim>\<open>JSON.parse\<close> returns: \<open>null\<close>, a boolean, a number,
  a string, an array or an object, here with \<open>undefined\<close> for what is absent. An object is
  the map of its own properties.
\<close>

datatype jsval =
    Undefined
  | Null
  | Bool bool
  | Num number
  | Str string
  | Arr "jsval list"
  | Obj "string \<Rightarrow> jsval option"

datatype exception = TypeError

fun truthy :: "jsval \<Rightarrow> bool" where
  "truthy Undefined = False"
| "truthy Null = False"
| "truthy (Bool b) = b"
| "truthy (Num n) = (case n of NaN \<Rightarrow> False | Fin k \<Rightarrow> k \<noteq> 0 | _ \<Rightarrow> True)"
| "truthy (Str s) = (s \<noteq> [])"
| "truthy (Arr xs) = True"
| "truthy (Obj m) = True"

text \<open>\<^verbatim>\<open>typeof v === "string"\<close>\<close>

fun is_string :: "jsval \<Rightarrow> bool" where
  "is_string (Str s) = True"
| "is_string v = False"

text \<open>\<^verbatim>\<open>v ?? d\<close>\<close>

fun nullish_or :: "jsval \<Rightarrow> jsval \<Rightarrow> jsval" where
  "nullish_or Undefined d = d"
| "nullish_or Null d = d"
| "nullish_or v d = v"

text \<open>
  \<^verbatim>\<open>String(v)\<close>. An array is joined with commas, \<open>null\<close> and \<open>undefined\<close> elements giving
  the empty string. An object is converted by its \<^verbatim>\<open>toString\<close>: the inherited one gives
  \<^verbatim>\<open>[object Object]\<close>, while an own property of that name, which in parsed JSON is never a
  function, makes the conversion throw a \<^verbatim>\<open>TypeError\<close>.
\<close>

fun ToString :: "jsval \<Rightarrow> exception + string"
  and join_elements :: "jsval list \<Rightarrow> exception + string" where
  "ToString Undefined = Inr ''undefined''"
| "ToString Null = Inr ''null''"
| "ToString (Bool b) = Inr (if b then ''true'' else ''false'')"
| "ToString (Num n) = Inr (number_to_string n)"
| "ToString (Str s) = Inr s"
| "ToString (Arr xs) = join_elements xs"
| "ToString (Obj m) =
     (case m ''toString'' of None \<Rightarrow> Inr ''[object Object]'' | Some f \<Rightarrow> Inl TypeError)"
| "join_elements [] = Inr []"
| "join_elements (x # xs) =
     (case (case x of Undefined \<Rightarrow> Inr [] | Null \<Rightarrow> Inr [] | _ \<Rightarrow> ToString x) of
        Inl e \<Rightarrow> Inl e
      | Inr s \<Rightarrow>
          (if xs = [] then Inr s
           else case join_elements xs of Inl e \<Rightarrow> Inl e | Inr t \<Rightarrow> Inr (s @ '','' @ t)))"

text \<open>
  \<^verbatim>\<open>v.toString()\<close>, the method call: as \<^verbatim>\<open>String(v)\<close> where \<open>v\<close> has the method, a
  \<^verbatim>\<open>TypeError\<close> on \<open>null\<close> and \<open>undefined\<close>.
\<close>

fun call_toString :: "jsval \<Rightarrow> exception + string" where
  "call_toString Undefined = Inl TypeError"
| "call_toString Null = Inl TypeError"
| "call_toString v = ToString v"

text \<open>
  \<^verbatim>\<open>v.name\<close> for the property names the migration reads, none of which a prototype
  defines: an object gives its own property, any other non-null value \<open>undefined\<close>.
\<close>

fun get_prop :: "jsval \<Rightarrow> string \<Rightarrow> jsval" where
  "get_prop (Obj m) k = (case m k of None \<Rightarrow> Undefined | Some v \<Rightarrow> v)"
| "get_prop v k = Undefined"

text \<open>
  \<^verbatim>\<open>{ ...v }\<close>: the own enumerable properties of \<open>v\<close>, which for a string and an array are
  the elements under their indices and for the other primitives none.
\<close>

fun spread :: "jsval \<Rightarrow> (string \<Rightarrow> jsval option)" where
  "spread (Obj m) = m"
| "spread (Str s) = map_of (zip (map dec [0 ..< length s]) (map (\<lambda>c. Str [c]) s))"
| "spread (Arr xs) = map_of (zip (map dec [0 ..< length xs]) xs)"
| "spread v = Map.empty"

type_synonym object = "string \<Rightarrow> jsval option"

definition get :: "object \<Rightarrow> string \<Rightarrow> jsval" where
  "get m k = (case m k of None \<Rightarrow> Undefined | Some v \<Rightarrow> v)"

text \<open>A \<^verbatim>\<open>TypeError\<close> ends the evaluation; \<open>and_then\<close> sequences two steps.\<close>

definition and_then :: "exception + 'a \<Rightarrow> ('a \<Rightarrow> exception + 'b) \<Rightarrow> exception + 'b" where
  "and_then r f = (case r of Inl e \<Rightarrow> Inl e | Inr x \<Rightarrow> f x)"

section \<open>Provider slot normalisation (main.ts)\<close>

datatype ProviderSlot = One | Two

fun slot_number :: "ProviderSlot \<Rightarrow> int" where
  "slot_number One = 1"
| "slot_number Two = 2"

text \<open>
  \<^verbatim>\<open>
  private normalizeProviderSlot(value: number | string | undefined): ProviderSlot {
    const numeric = Number.parseInt(String(value ?? ""), 10);
    if (numeric === 2) {
      return 2;
    }
    return 1;
  }
  \<close>
  The migration calls it on whatever the persisted object holds, so the model takes any
  value.
\<close>

definition normalizeProviderSlot :: "jsval \<Rightarrow> exception + ProviderSlot" where
  "normalizeProviderSlot v =
     and_then (ToString (nullish_or v (Str [])))
       (\<lambda>s. let numeric = parseInt s in if numeric = Fin 2 then Inr Two else Inr One)"

section \<open>Settings migration (main.ts)\<close>

text \<open>
  \<^verbatim>\<open>
  const legacyKey = [data.apiKey, data.openAIapiKey, data.anthropicApiKey]
    .find((value) => typeof value === "string" && value.trim());
  \<close>
\<close>

definition legacyKey_of :: "jsval \<Rightarrow> jsval option" where
  "legacyKey_of data =
     List.find (\<lambda>v. case v of Str s \<Rightarrow> trim s \<noteq> [] | _ \<Rightarrow> False)
       [get_prop data ''apiKey'', get_prop data ''openAIapiKey'', get_prop data ''anthropicApiKey'']"

text \<open>
  \<^verbatim>\<open>
  const legacyBase = typeof data.apiBaseUrl === "string" && data.apiBaseUrl.trim()
    ? data.apiBaseUrl.trim() : DEFAULT_API_BASE_URL;
  \<close>
\<close>

definition legacyBase_of :: "jsval \<Rightarrow> string" where
  "legacyBase_of data =
     (case get_prop data ''apiBaseUrl'' of
        Str s \<Rightarrow> if trim s \<noteq> [] then trim s else DEFAULT_API_BASE_URL
      | _ \<Rightarrow> DEFAULT_API_BASE_URL)"

text \<open>\<^verbatim>\<open>migrated.k = (migrated.k ?? "").toString().trim()\<close>\<close>

definition trim_field :: "string \<Rightarrow> object \<Rightarrow> exception + object" where
  "trim_field k migrated =
     and_then (call_toString (nullish_or (get migrated k) (Str [])))
       (\<lambda>s. Inr (migrated(k \<mapsto> Str (trim s))))"

text \<open>
  \<^verbatim>\<open>
  if (typeof migrated.apiKey1 !== "string") {
    migrated.apiKey1 = legacyKey ? legacyKey.trim() : "";
  }
  \<close>
\<close>

definition seed_apiKey1 :: "jsval \<Rightarrow> object \<Rightarrow> object" where
  "seed_apiKey1 data migrated =
     (if \<not> is_string (get migrated ''apiKey1'')
      then migrated(''apiKey1'' \<mapsto>
             Str (case legacyKey_of data of Some (Str k) \<Rightarrow> trim k | _ \<Rightarrow> []))
      else migrated)"

text \<open>
  \<^verbatim>\<open>
  if (typeof migrated.apiBaseUrl1 !== "string") {
    migrated.apiBaseUrl1 = legacyBase;
  }
  \<close>
\<close>

definition seed_apiBaseUrl1 :: "jsval \<Rightarrow> object \<Rightarrow> object" where
  "seed_apiBaseUrl1 data migrated =
     (if \<not> is_string (get migrated ''apiBaseUrl1'')
      then migrated(''apiBaseUrl1'' \<mapsto> Str (legacyBase_of data))
      else migrated)"

text \<open>
  \<^verbatim>\<open>
  if (!migrated.apiBaseUrl1) {
    migrated.apiBaseUrl1 = DEFAULT_API_BASE_URL;
  }
  \<close>
\<close>

definition default_apiBaseUrl1 :: "object \<Rightarrow> object" where
  "default_apiBaseUrl1 migrated =
     (if \<not> truthy (get migrated ''apiBaseUrl1'')
      then migrated(''apiBaseUrl1'' \<mapsto> Str DEFAULT_API_BASE_URL)
      else migrated)"

text \<open>\<^verbatim>\<open>migrated.k = this.normalizeProviderSlot(migrated.k)\<close>\<close>

definition normalize_field :: "string \<Rightarrow> object \<Rightarrow> exception + object" where
  "normalize_field k migrated =
     and_then (normalizeProviderSlot (get migrated k))
       (\<lambda>slot. Inr (migrated(k \<mapsto> Num (Fin (slot_number slot)))))"

text \<open>
  \<^verbatim>\<open>
  if (typeof migrated.speechModelName !== "string" || !migrated.speechModelName) {
    migrated.speechModelName = DEFAULT_SPEECH_MODEL;
  }
  \<close>
\<close>

definition default_speechModelName :: "object \<Rightarrow> object" where
  "default_speechModelName migrated =
     (if \<not> is_string (get migrated ''speechModelName'') \<or> \<not> truthy (get migrated ''speechModelName'')
      then migrated(''speechModelName'' \<mapsto> Str DEFAULT_SPEECH_MODEL)
      else migrated)"

text \<open>
  \<^verbatim>\<open>
  const parsedTokens = Number.parseInt(
    String(data?.maxTokens ?? migrated.maxTokens ?? ""), 10);
  if (Number.isNaN(parsedTokens) || parsedTokens < 0) {
    migrated.maxTokens = DEFAULT_MAX_TOKENS;
  } else {
    migrated.maxTokens = parsedTokens;
  }
  \<close>
\<close>

definition migrate_maxTokens :: "jsval \<Rightarrow> object \<Rightarrow> exception + object" where
  "migrate_maxTokens data migrated =
     and_then
       (ToString (nullish_or (nullish_or (get_prop data ''maxTokens'') (get migrated ''maxTokens''))
                    (Str [])))
       (\<lambda>s. let parsedTokens = parseInt s
            in if isNaN parsedTokens \<or> num_less parsedTokens (Fin 0)
               then Inr (migrated(''maxTokens'' \<mapsto> Num (Fin DEFAULT_MAX_TOKENS)))
               else Inr (migrated(''maxTokens'' \<mapsto> Num parsedTokens)))"

text \<open>The ten \<^verbatim>\<open>delete\<close> statements, in the order of the source.\<close>

definition obsolete_fields :: "string list" where
  "obsolete_fields =
     [''openAIapiKey'', ''anthropicApiKey'', ''apiKey'', ''apiBaseUrl'', ''apiKey3'',
      ''apiBaseUrl3'', ''imageProvider'', ''imageModelName'', ''imgFolder'', ''mySetting'']"

definition delete_fields :: "string list \<Rightarrow> object \<Rightarrow> object" where
  "delete_fields ks migrated = foldl (\<lambda>m k. m(k := None)) migrated ks"

text \<open>
  \<open>migrateSettings\<close>: an empty patch for a falsy \<open>data\<close>; otherwise the copy of \<open>data\<close>
  goes through the statements of the source in their order.
\<close>

definition migrateSettings :: "jsval \<Rightarrow> exception + object" where
  "migrateSettings data =
     (if \<not> truthy data then Inr Map.empty
      else
        and_then (trim_field ''apiKey1'' (seed_apiKey1 data (spread data))) (\<lambda>migrated.
        and_then (trim_field ''apiKey2'' migrated) (\<lambda>migrated.
        and_then (trim_field ''apiBaseUrl1'' (seed_apiBaseUrl1 data migrated)) (\<lambda>migrated.
        and_then (trim_field ''apiBaseUrl2'' migrated) (\<lambda>migrated.
        and_then (normalize_field ''textProvider'' (default_apiBaseUrl1 migrated)) (\<lambda>migrated.
        and_then (normalize_field ''speechProvider'' migrated) (\<lambda>migrated.
        and_then (migrate_maxTokens data (default_speechModelName migrated)) (\<lambda>migrated.
        Inr (delete_fields obsolete_fields migrated)))))))))"

text \<open>
  \<open>DEFAULT_SETTINGS\<close> and \<open>loadSettings\<close>:
  \<^verbatim>\<open>this.settings = Object.assign({}, DEFAULT_SETTINGS, migrated)\<close>, with the loaded data
  as a parameter.
\<close>

definition DEFAULT_SETTINGS :: object where
  "DEFAULT_SETTINGS =
     [''apiKey1'' \<mapsto> Str [],
      ''apiBaseUrl1'' \<mapsto> Str DEFAULT_API_BASE_URL,
      ''apiKey2'' \<mapsto> Str [],
      ''apiBaseUrl2'' \<mapsto> Str [],
      ''textProvider'' \<mapsto> Num (Fin 1),
      ''speechProvider'' \<mapsto> Num (Fin 1),
      ''modelName'' \<mapsto> Str DEFAULT_TEXT_MODEL,
      ''speechModelName'' \<mapsto> Str DEFAULT_SPEECH_MODEL,
      ''maxTokens'' \<mapsto> Num (Fin DEFAULT_MAX_TOKENS),
      ''replaceSelection'' \<mapsto> Bool True,
      ''language'' \<mapsto> Str []]"

definition loadSettings :: "jsval \<Rightarrow> exception + object" where
  "loadSettings loaded =
     and_then (migrateSettings loaded) (\<lambda>migrated. Inr (DEFAULT_SETTINGS ++ migrated))"

text \<open>
  Reading the outcome of a migration or of a load: \<open>field_of r k\<close> is the field \<open>k\<close> of
  the object that \<open>r\<close> returns, and \<open>migrate_twice\<close> migrates the patch that a first
  migration returns.
\<close>

definition field_of :: "exception + object \<Rightarrow> string \<Rightarrow> exception + jsval" where
  "field_of r k = and_then r (\<lambda>m. Inr (get m k))"

definition migrate_twice :: "jsval \<Rightarrow> exception + object" where
  "migrate_twice data = and_then (migrateSettings data) (\<lambda>patch. migrateSettings (Obj patch))"

text \<open>
  \<open>converts v\<close>: \<^verbatim>\<open>String(v)\<close> returns. It does for the primitive values; it does not for
  an object with an own \<^verbatim>\<open>toString\<close> property, nor for an array that holds one.
\<close>

definition converts :: "jsval \<Rightarrow> bool" where
  "converts v = (case ToString v of Inl e \<Rightarrow> False | Inr s \<Rightarrow> True)"


text \<open>
  The shape of a migrated patch: the four slot fields are trimmed strings, the first base
  URL is not empty, the two providers are 1 or 2, the speech model is a non-empty string,
  \<open>maxTokens\<close> is a number that is not negative, and the obsolete fields are gone.
\<close>

definition trimmed_string :: "jsval \<Rightarrow> bool" where
  "trimmed_string v = (case v of Str s \<Rightarrow> trim s = s | _ \<Rightarrow> False)"

definition slot_value :: "jsval \<Rightarrow> bool" where
  "slot_value v = (v = Num (Fin 1) \<or> v = Num (Fin 2))"

definition token_value :: "jsval \<Rightarrow> bool" where
  "token_value v = (case v of Num (Fin n) \<Rightarrow> 0 \<le> n | Num Infinity \<Rightarrow> True | _ \<Rightarrow> False)"

definition migrated_form :: "object \<Rightarrow> bool" where
  "migrated_form m =
     (trimmed_string (get m ''apiKey1'') \<and> trimmed_string (get m ''apiKey2'')
      \<and> trimmed_string (get m ''apiBaseUrl1'') \<and> get m ''apiBaseUrl1'' \<noteq> Str []
      \<and> trimmed_string (get m ''apiBaseUrl2'')
      \<and> slot_value (get m ''textProvider'') \<and> slot_value (get m ''speechProvider'')
      \<and> is_string (get m ''speechModelName'') \<and> get m ''speechModelName'' \<noteq> Str []
      \<and> token_value (get m ''maxTokens'')
      \<and> list_all (\<lambda>k. m k = None) obsolete_fields)"

section \<open>Base URL normalisation (openai\_api.ts)\<close>

text \<open>
  \<^verbatim>\<open>s.replace(/\/?$/, "")\<close>: the first position where an optional slash is followed by the
  end of the string is the last character when that is a slash and the end of the string
  otherwise, so exactly one trailing slash is removed.
\<close>

definition strip_trailing_slash :: "string \<Rightarrow> string" where
  "strip_trailing_slash s = (if s \<noteq> [] \<and> last s = CHR ''/'' then butlast s else s)"

text \<open>
  \<^verbatim>\<open>
  const normalizeBaseUrl = (baseUrl: string): string => {
    const trimmed = baseUrl?.trim() ?? "";
    const normalized = trimmed || DEFAULT_API_BASE_URL;
    return normalized.replace(/\/?$/, "");
  };
  \<close>
  The parameter is a string by its type, so the \<^verbatim>\<open>?.\<close> and \<^verbatim>\<open>??\<close> guards are not taken.
\<close>

definition normalizeBaseUrl :: "string \<Rightarrow> string" where
  "normalizeBaseUrl baseUrl =
     (let trimmed = trim baseUrl;
          normalized = (if trimmed = [] then DEFAULT_API_BASE_URL else trimmed)
      in strip_trailing_slash normalized)"

section \<open>The two assistants: construction\<close>

text \<open>
  \<open>OpenAIAssistant\<close>; its \<^verbatim>\<open>apiFun\<close>, the SDK client, is built from \<open>apiKey\<close> and \<open>baseUrl\<close>
  and is represented by the backend that the calls below take as a parameter.
\<close>

record OpenAIAssistant =
  oa_modelName :: string
  oa_maxTokens :: number
  oa_apiKey :: string
  oa_speechModelName :: string
  oa_baseUrl :: string

definition new_OpenAIAssistant ::
  "string \<Rightarrow> string \<Rightarrow> string \<Rightarrow> number \<Rightarrow> string \<Rightarrow> OpenAIAssistant" where
  "new_OpenAIAssistant apiKey baseUrl modelName maxTokens speechModelName =
     \<lparr> oa_modelName = (if modelName = [] then DEFAULT_TEXT_MODEL else modelName),
       oa_maxTokens = maxTokens,
       oa_apiKey = apiKey,
       oa_speechModelName =
         (if speechModelName = [] then DEFAULT_SPEECH_MODEL else speechModelName),
       oa_baseUrl = normalizeBaseUrl baseUrl \<rparr>"

record AnthropicAssistant =
  an_modelName :: string
  an_maxTokens :: number
  an_apiKey :: string
  an_baseUrl :: string

text \<open>
  \<^verbatim>\<open>
  this.apiKey = apiKey;
  this.baseUrl = normalizeBaseUrl(baseUrl) || "https://api.anthropic.com/v1";
  this.modelName = modelName || "claude-3-5-sonnet-latest";
  this.maxTokens = maxTokens;
  \<close>
\<close>

definition new_AnthropicAssistant ::
  "string \<Rightarrow> string \<Rightarrow> string \<Rightarrow> number \<Rightarrow> AnthropicAssistant" where
  "new_AnthropicAssistant apiKey baseUrl modelName maxTokens =
     \<lparr> an_modelName = (if modelName = [] then ''claude-3-5-sonnet-latest'' else modelName),
       an_maxTokens = maxTokens,
       an_apiKey = apiKey,
       an_baseUrl =
         (let n = normalizeBaseUrl baseUrl in if n = [] then ANTHROPIC_API_ROOT else n) \<rparr>"

section \<open>The OpenAI-compatible text call (openai\_api.ts)\<close>

text \<open>
  A message of the prompt list; the call looks only at whether its content is an array
  (an image payload) or not.
\<close>

datatype message_content = TextContent string | ArrayContent "string list"

record message =
  msg_role :: string
  msg_content :: message_content

text \<open>
  The request body built by \<open>sendRequest\<close>. A key that is not set is \<open>None\<close>.
\<close>

record chat_params =
  p_messages :: "message list"
  p_model :: string
  p_stream :: bool
  p_max_tokens :: "number option"
  p_max_completion_tokens :: "number option"

text \<open>
  What a request can throw: an \<^verbatim>\<open>OpenAI.APIError\<close> with its message, its code (a string,
  or absent) and its body \<^verbatim>\<open>err.error\<close>, given by its \<^verbatim>\<open>JSON.stringify\<close> text when
  \<^verbatim>\<open>typeof err.error === "object"\<close> and absent otherwise; another \<^verbatim>\<open>Error\<close> with its
  message; a string; or some other value.
\<close>

datatype thrown =
    APIError string "string option" "string option"
  | Error string
  | ThrownString string
  | ThrownOther

text \<open>
  The SDK client \<^verbatim>\<open>apiFun.chat.completions.create\<close>, an external service. It is a
  parameter of the call: \<open>create\<close> answers a request without streaming by the content of
  the first choice (absent when the response has none), \<open>create_stream\<close> answers a
  streaming request by the \<^verbatim>\<open>delta.content\<close> of its chunks in order, and by the error that
  ends the iteration early, if one does. Both may throw instead. The number is the count
  of requests made before this one, so that a backend may answer a retry differently.
\<close>

record backend =
  create :: "nat \<Rightarrow> chat_params \<Rightarrow> thrown + string option"
  create_stream :: "nat \<Rightarrow> chat_params \<Rightarrow> thrown + (string option list \<times> thrown option)"

datatype notice = ApiErrorNotice thrown | ErrorNotice thrown | TextNotice string

text \<open>
  \<^verbatim>\<open>
  display_error = (err: any) => {
    if (err instanceof OpenAI.APIError) {
      new Notice(`OpenAI API Error: ${err}`);
    } else {
      new Notice(err);
    }
  };
  \<close>
\<close>

fun display_error :: "thrown \<Rightarrow> notice" where
  "display_error (APIError m c b) = ApiErrorNotice (APIError m c b)"
| "display_error err = ErrorNotice err"

text \<open>
  \<^verbatim>\<open>
  private shouldRetryWithoutMaxTokens(err: unknown): boolean {
    const parts: string[] = [];
    if (err instanceof OpenAI.APIError) {
      if (err.message) { parts.push(err.message); }
      if (err.code) { parts.push(String(err.code)); }
      if (typeof err.error === "object") { parts.push(JSON.stringify(err.error)); }
    } else if (err instanceof Error) {
      parts.push(err.message);
    } else if (typeof err === "string") {
      parts.push(err);
    }
    const haystack = parts.join(" ");
    return /max[_-]?tokens|max_completion_tokens/i.test(haystack);
  }
  \<close>
\<close>

fun error_parts :: "thrown \<Rightarrow> string list" where
  "error_parts (APIError m c b) =
     (if m \<noteq> [] then [m] else [])
     @ (case c of None \<Rightarrow> [] | Some code \<Rightarrow> if code \<noteq> [] then [code] else [])
     @ (case b of None \<Rightarrow> [] | Some body \<Rightarrow> [body])"
| "error_parts (Error m) = [m]"
| "error_parts (ThrownString s) = [s]"
| "error_parts ThrownOther = []"

definition MAX_TOKENS_RX :: "rx list list" where
  "MAX_TOKENS_RX =
     [lit ''max'' @ [Opt (Cls ''_-'')] @ lit ''tokens'', lit ''max_completion_tokens'']"

definition shouldRetryWithoutMaxTokens :: "thrown \<Rightarrow> bool" where
  "shouldRetryWithoutMaxTokens err = rx_test True MAX_TOKENS_RX (join '' '' (error_parts err))"

text \<open>
  \<^verbatim>\<open>
  const has_img = prompt_list.some((el) => Array.isArray(el.content));
  let model = this.modelName;
  if (has_img && !OAI_IMAGE_CAPABLE_MODELS.includes(model)) {
    model = DEFAULT_TEXT_MODEL;
  }
  \<close>
\<close>

definition has_img :: "message list \<Rightarrow> bool" where
  "has_img prompt_list =
     list_ex (\<lambda>el. case msg_content el of ArrayContent parts \<Rightarrow> True | TextContent t \<Rightarrow> False)
       prompt_list"

definition call_model :: "OpenAIAssistant \<Rightarrow> message list \<Rightarrow> string" where
  "call_model a prompt_list =
     (if has_img prompt_list \<and> \<not> List.member OAI_IMAGE_CAPABLE_MODELS (oa_modelName a)
      then DEFAULT_TEXT_MODEL
      else oa_modelName a)"

text \<open>
  \<^verbatim>\<open>const includeMaxTokens = Number.isFinite(this.maxTokens) && this.maxTokens > 0;\<close>
\<close>

definition includeMaxTokens :: "OpenAIAssistant \<Rightarrow> bool" where
  "includeMaxTokens a = (isFinite (oa_maxTokens a) \<and> num_less (Fin 0) (oa_maxTokens a))"

definition REASONING_RX :: "rx list list" where
  "REASONING_RX = [[Chr CHR ''o'', Cls ''124'']]"

text \<open>
  \<^verbatim>\<open>
  const is_reasonning_model = /o[124]/.test(model);
  const params: any = { messages: prompt_list, model: model, stream: streamMode };
  if (includeMaxTokens && !omitMaxTokens) {
    if (is_reasonning_model) {
      params.max_completion_tokens = this.maxTokens;
    } else {
      params.max_tokens = this.maxTokens;
    }
  }
  \<close>
\<close>

definition build_params ::
  "OpenAIAssistant \<Rightarrow> message list \<Rightarrow> bool \<Rightarrow> bool \<Rightarrow> chat_params" where
  "build_params a prompt_list streamMode omitMaxTokens =
     (let model = call_model a prompt_list;
          is_reasonning_model = rx_test False REASONING_RX model;
          params = \<lparr> p_messages = prompt_list, p_model = model, p_stream = streamMode,
                     p_max_tokens = None, p_max_completion_tokens = None \<rparr>
      in if includeMaxTokens a \<and> \<not> omitMaxTokens
         then (if is_reasonning_model
               then params\<lparr> p_max_completion_tokens := Some (oa_maxTokens a) \<rparr>
               else params\<lparr> p_max_tokens := Some (oa_maxTokens a) \<rparr>)
         else params)"

text \<open>
  One round of the streaming loop, on the pair of \<^verbatim>\<open>responseText\<close> and the render
  target's \<^verbatim>\<open>innerHTML\<close>:
  \<^verbatim>\<open>
  const content = chunk.choices?.[0]?.delta?.content;
  if (content) {
    responseText = responseText.concat(content);
    htmlEl!.innerHTML = responseText;
  }
  \<close>
  The render target is taken to be a plain cell: reading \<^verbatim>\<open>innerHTML\<close> gives what was
  written last.
\<close>

definition stream_step :: "string \<times> string \<Rightarrow> string option \<Rightarrow> string \<times> string" where
  "stream_step st chunk =
     (case chunk of
        None \<Rightarrow> st
      | Some content \<Rightarrow>
          if content \<noteq> [] then (fst st @ content, fst st @ content) else st)"

text \<open>
  The state a call works on: the render target's \<^verbatim>\<open>innerHTML\<close> (\<open>None\<close> when the call
  was given no render target), the notices shown and the requests made so far.
\<close>

record call_state =
  innerHTML :: "string option"
  notices :: "notice list"
  requests :: "chat_params list"

text \<open>
  \<open>sendRequest\<close>: the render target is cleared, the request is built and sent, and the
  answer is returned, or aggregated from the stream into the render target and read back
  from it. An error is the left summand.
\<close>

definition sendRequest ::
  "backend \<Rightarrow> OpenAIAssistant \<Rightarrow> message list \<Rightarrow> call_state \<Rightarrow> bool \<Rightarrow>
   (thrown + string option) \<times> call_state" where
  "sendRequest be a prompt_list st omitMaxTokens =
     (let streamMode = (innerHTML st \<noteq> None);
          st1 = (if streamMode then st\<lparr> innerHTML := Some [] \<rparr> else st);
          params = build_params a prompt_list streamMode omitMaxTokens;
          n = length (requests st1);
          st2 = st1\<lparr> requests := requests st1 @ [params] \<rparr>
      in if streamMode
         then (case create_stream be n params of
                 Inl err \<Rightarrow> (Inl err, st2)
               | Inr (chunks, failure) \<Rightarrow>
                   (let final = foldl stream_step ([], []) chunks;
                        st3 = st2\<lparr> innerHTML := Some (snd final) \<rparr>
                    in case failure of
                         Some err \<Rightarrow> (Inl err, st3)
                       | None \<Rightarrow> (Inr (Some (snd final)), st3)))
         else (create be n params, st2))"

text \<open>
  The loop of \<open>text_api_call\<close>:
  \<^verbatim>\<open>
  while (true) {
    try {
      return await sendRequest(omitMaxTokens);
    } catch (err) {
      if (!omitMaxTokens && this.shouldRetryWithoutMaxTokens(err)) {
        omitMaxTokens = true;
        continue;
      }
      this.display_error(err);
      return;
    }
  }
  \<close>
  The result is the returned text, \<open>None\<close> for \<open>undefined\<close>, with the final state.
\<close>

function attempt_loop ::
  "backend \<Rightarrow> OpenAIAssistant \<Rightarrow> message list \<Rightarrow> call_state \<Rightarrow> bool \<Rightarrow>
   string option \<times> call_state" where
  "attempt_loop be a prompt_list st omitMaxTokens =
     (case sendRequest be a prompt_list st omitMaxTokens of
        (Inr answer, st') \<Rightarrow> (answer, st')
      | (Inl err, st') \<Rightarrow>
          if \<not> omitMaxTokens \<and> shouldRetryWithoutMaxTokens err
          then attempt_loop be a prompt_list st' True
          else (None, st'\<lparr> notices := notices st' @ [display_error err] \<rparr>))"
  by pat_completeness auto
termination
  by (relation "measure (\<lambda>(be, a, prompt_list, st, omitMaxTokens). if omitMaxTokens then 0 else 1)")
    auto

declare attempt_loop.simps [simp del]

text \<open>
  \<open>text_api_call\<close>, with the render target given by its initial \<^verbatim>\<open>innerHTML\<close> when there
  is one.
\<close>

definition text_api_call ::
  "backend \<Rightarrow> OpenAIAssistant \<Rightarrow> message list \<Rightarrow> string option \<Rightarrow> string option \<times> call_state" where
  "text_api_call be a prompt_list htmlEl =
     attempt_loop be a prompt_list \<lparr> innerHTML = htmlEl, notices = [], requests = [] \<rparr>
       (\<not> includeMaxTokens a)"

section \<open>The Anthropic text call (openai\_api.ts)\<close>

text \<open>
  The body that \<open>text_api_call\<close> of the Anthropic assistant serialises:
  \<^verbatim>\<open>
  body: JSON.stringify({
    model: this.modelName,
    max_tokens: this.maxTokens,
    messages: prompt_list,
    stream: false,
  })
  \<close>
\<close>

record anthropic_body =
  b_model :: string
  b_max_tokens :: "number option"
  b_max_completion_tokens :: "number option"
  b_messages :: "message list"
  b_stream :: bool

definition anthropic_request_body :: "AnthropicAssistant \<Rightarrow> message list \<Rightarrow> anthropic_body" where
  "anthropic_request_body a prompt_list =
     \<lparr> b_model = an_modelName a,
       b_max_tokens = Some (an_maxTokens a),
       b_max_completion_tokens = None,
       b_messages = prompt_list,
       b_stream = False \<rparr>"

text \<open>
  The host's \<^verbatim>\<open>request\<close> with the URL and the body; it answers with the text of the first
  content block (absent when the parsed response has none) or throws.
  \<^verbatim>\<open>
  try {
    const response = await request({ url: `${this.baseUrl}/messages`, ... });
    const parsed = JSON.parse(response);
    return parsed.content?.[0]?.text ?? "";
  } catch (err) {
    this.display_error(err);
  }
  \<close>
\<close>

definition anthropic_text_api_call ::
  "(string \<Rightarrow> anthropic_body \<Rightarrow> thrown + string option) \<Rightarrow> AnthropicAssistant \<Rightarrow> message list \<Rightarrow>
   string option \<times> notice list \<times> (string \<times> anthropic_body) list" where
  "anthropic_text_api_call request a prompt_list =
     (let url = an_baseUrl a @ ''/messages'';
          body = anthropic_request_body a prompt_list
      in case request url body of
           Inl err \<Rightarrow> (None, [ErrorNotice err], [(url, body)])
         | Inr text \<Rightarrow> (Some (case text of None \<Rightarrow> [] | Some t \<Rightarrow> t), [], [(url, body)]))"

section \<open>Assistant factory and provider resolver (main.ts)\<close>

record AiAssistantSettings =
  apiKey1 :: string
  apiBaseUrl1 :: string
  apiKey2 :: string
  apiBaseUrl2 :: string
  textProvider :: number
  speechProvider :: number
  modelName :: string
  speechModelName :: string
  maxTokens :: number
  replaceSelection :: bool
  language :: string

datatype assistant = OpenAI OpenAIAssistant | Anthropic AnthropicAssistant

definition ANTHROPIC_RX :: "rx list list" where
  "ANTHROPIC_RX = [lit ''anthropic.com'']"

text \<open>
  \<^verbatim>\<open>
  const effectiveBase = baseUrl || DEFAULT_API_BASE_URL;
  if (/anthropic\.com/i.test(effectiveBase)) {
    return new AnthropicAssistant(apiKey, effectiveBase,
      this.settings.modelName, this.settings.maxTokens);
  }
  return new OpenAIAssistant(apiKey, effectiveBase, this.settings.modelName,
    this.settings.maxTokens, this.settings.speechModelName);
  \<close>
\<close>

definition createAssistant :: "AiAssistantSettings \<Rightarrow> string \<Rightarrow> string \<Rightarrow> assistant" where
  "createAssistant settings apiKey baseUrl =
     (let effectiveBase = (if baseUrl = [] then DEFAULT_API_BASE_URL else baseUrl)
      in if rx_test True ANTHROPIC_RX effectiveBase
         then Anthropic (new_AnthropicAssistant apiKey effectiveBase
                (modelName settings) (maxTokens settings))
         else OpenAI (new_OpenAIAssistant apiKey effectiveBase
                (modelName settings) (maxTokens settings) (speechModelName settings)))"

text \<open>
  \<^verbatim>\<open>
  const apiKey = (this.settings[keyField] || "").trim();
  let baseUrl = (this.settings[urlField] || "").trim();
  if (!baseUrl && slot === 1) {
    baseUrl = DEFAULT_API_BASE_URL;
  }
  return { apiKey, baseUrl: baseUrl || "" };
  \<close>
\<close>

definition getProviderConfig :: "AiAssistantSettings \<Rightarrow> ProviderSlot \<Rightarrow> string \<times> string" where
  "getProviderConfig settings slot =
     (let apiKey = trim (case slot of One \<Rightarrow> apiKey1 settings | Two \<Rightarrow> apiKey2 settings);
          baseUrl = trim (case slot of One \<Rightarrow> apiBaseUrl1 settings | Two \<Rightarrow> apiBaseUrl2 settings);
          baseUrl = (if baseUrl = [] \<and> slot = One then DEFAULT_API_BASE_URL else baseUrl)
      in (apiKey, baseUrl))"

text \<open>
  The slot cache of one rebuild: \<open>None\<close> for a slot that is not in the cache,
  \<open>Some None\<close> for a slot cached as \<open>undefined\<close>.
\<close>

type_synonym slotCache = "ProviderSlot \<Rightarrow> assistant option option"

definition resolveSlot ::
  "AiAssistantSettings \<Rightarrow> slotCache \<Rightarrow> ProviderSlot \<Rightarrow> assistant option \<times> slotCache" where
  "resolveSlot settings slotCache slot =
     (case slotCache slot of
        Some cached \<Rightarrow> (cached, slotCache)
      | None \<Rightarrow>
          (let config = getProviderConfig settings slot
           in if fst config = [] then (None, slotCache(slot \<mapsto> None))
              else (let assistant = createAssistant settings (fst config) (snd config)
                    in (Some assistant, slotCache(slot \<mapsto> Some assistant)))))"

datatype Capability = Text | Speech

text \<open>
  \<open>buildAssistants\<close> returns the new capability map \<^verbatim>\<open>this.assistants\<close>.
\<close>

definition buildAssistants ::
  "AiAssistantSettings \<Rightarrow> exception + (Capability \<Rightarrow> assistant option)" where
  "buildAssistants settings =
     and_then (normalizeProviderSlot (Num (textProvider settings))) (\<lambda>textSlot.
     and_then (normalizeProviderSlot (Num (speechProvider settings))) (\<lambda>speechSlot.
       (let r1 = resolveSlot settings Map.empty textSlot;
            r2 = resolveSlot settings (snd r1) speechSlot
        in Inr (\<lambda>capability. case capability of Text \<Rightarrow> fst r1 | Speech \<Rightarrow> fst r2))))"

text \<open>
  The three commands, each by what it does with the capability map: a notice when the
  capability has no assistant, its dialog otherwise.
\<close>

datatype command_outcome =
    ShowNotice string
  | OpenChatModal assistant
  | OpenPromptModal assistant
  | OpenSpeechModal assistant string

definition chat_mode :: "(Capability \<Rightarrow> assistant option) \<Rightarrow> command_outcome" where
  "chat_mode assistants =
     (case assistants Text of
        None \<Rightarrow> ShowNotice ''Configure a provider for chat in mini assistant settings.''
      | Some assistant \<Rightarrow> OpenChatModal assistant)"

definition prompt_mode :: "(Capability \<Rightarrow> assistant option) \<Rightarrow> command_outcome" where
  "prompt_mode assistants =
     (case assistants Text of
        None \<Rightarrow> ShowNotice ''Configure a provider for chat in mini assistant settings.''
      | Some assistant \<Rightarrow> OpenPromptModal assistant)"

definition speech_to_text ::
  "AiAssistantSettings \<Rightarrow> (Capability \<Rightarrow> assistant option) \<Rightarrow> command_outcome" where
  "speech_to_text settings assistants =
     (case assistants Speech of
        None \<Rightarrow> ShowNotice ''Configure a provider for speech-to-text in mini assistant settings.''
      | Some assistant \<Rightarrow> OpenSpeechModal assistant (language settings))"


fun is_anthropic :: "assistant \<Rightarrow> bool" where
  "is_anthropic (Anthropic a) = True"
| "is_anthropic (OpenAI a) = False"

text \<open>
  The host of a URL in the usual sense, to compare the factory with: what stands between
  the \<^verbatim>\<open>://\<close> that ends the scheme and the next \<^verbatim>\<open>/\<close>, \<^verbatim>\<open>?\<close> or \<^verbatim>\<open>#\<close>. The factory does
  not compute it.
\<close>

fun after_scheme :: "string \<Rightarrow> string option" where
  "after_scheme [] = None"
| "after_scheme (c # cs) =
     (if prefix ''://'' (c # cs) then Some (drop 3 (c # cs)) else after_scheme cs)"

definition url_host :: "string \<Rightarrow> string" where
  "url_host url =
     takeWhile (\<lambda>c. c \<noteq> CHR ''/'' \<and> c \<noteq> CHR ''?'' \<and> c \<noteq> CHR ''#'')
       (case after_scheme url of None \<Rightarrow> url | Some rest \<Rightarrow> rest)"

section \<open>Scenarios\<close>

text \<open>Concrete inputs, used below to run the definitions.\<close>

definition user_message :: message where
  "user_message = \<lparr> msg_role = ''user'', msg_content = TextContent ''hi'' \<rparr>"

text \<open>
  A backend that answers every request: with the text \<^verbatim>\<open>ok\<close>, or with the two chunks
  \<^verbatim>\<open>Hel\<close> and \<^verbatim>\<open>lo\<close> when streaming.
\<close>

definition accepting_backend :: backend where
  "accepting_backend =
     \<lparr> create = (\<lambda>n p. Inr (Some ''ok'')),
       create_stream = (\<lambda>n p. Inr ([Some ''Hel'', Some ''lo''], None)) \<rparr>"

text \<open>
  A backend that rejects, with the given error, every request that carries a token limit
  under either name, and answers the others as the accepting backend does.
\<close>

definition rejecting_backend :: "thrown \<Rightarrow> backend" where
  "rejecting_backend err =
     \<lparr> create = (\<lambda>n p. if p_max_tokens p \<noteq> None \<or> p_max_completion_tokens p \<noteq> None
                        then Inl err else Inr (Some ''ok'')),
       create_stream = (\<lambda>n p. if p_max_tokens p \<noteq> None \<or> p_max_completion_tokens p \<noteq> None
                        then Inl err else Inr ([Some ''Hel'', Some ''lo''], None)) \<rparr>"

text \<open>A backend that fails every request with the given error.\<close>

definition failing_backend :: "thrown \<Rightarrow> backend" where
  "failing_backend err =
     \<lparr> create = (\<lambda>n p. Inl err), create_stream = (\<lambda>n p. Inl err) \<rparr>"

text \<open>
  Two errors of a backend that does not take a token limit: one names the parameter
  \<^verbatim>\<open>max_tokens\<close>, the other spells it \<^verbatim>\<open>maxTokens\<close>.
\<close>

definition max_tokens_rejection :: thrown where
  "max_tokens_rejection =
     APIError ''Unsupported parameter: max_tokens'' (Some ''unsupported_parameter'') None"

definition camel_case_rejection :: thrown where
  "camel_case_rejection = APIError ''Unsupported parameter: maxTokens'' None None"

definition assistant_500 :: "string \<Rightarrow> OpenAIAssistant" where
  "assistant_500 model = new_OpenAIAssistant ''sk-test'' [] model (Fin 500) []"

text \<open>The settings as compiled in, with the two keys given.\<close>

definition settings_with_keys :: "string \<Rightarrow> string \<Rightarrow> AiAssistantSettings" where
  "settings_with_keys k1 k2 =
     \<lparr> apiKey1 = k1, apiBaseUrl1 = DEFAULT_API_BASE_URL, apiKey2 = k2, apiBaseUrl2 = [],
       textProvider = Fin 1, speechProvider = Fin 1, modelName = DEFAULT_TEXT_MODEL,
       speechModelName = DEFAULT_SPEECH_MODEL, maxTokens = Fin DEFAULT_MAX_TOKENS,
       replaceSelection = True, language = [] \<rparr>"

text \<open>
  Persisted settings whose \<open>maxTokens\<close> is a string of digits: the integer \<open>10^21\<close>, and
  a 1 followed by 400 zeros.
\<close>

definition settings_maxTokens_1e21 :: jsval where
  "settings_maxTokens_1e21 = Obj [''maxTokens'' \<mapsto> Str ''1000000000000000000000'']"

definition settings_maxTokens_1e400 :: jsval where
  "settings_maxTokens_1e400 = Obj [''maxTokens'' \<mapsto> Str (CHR ''1'' # replicate 400 CHR ''0'')]"

text \<open>The legacy shape of the spec's example, with a selected provider and a limit.\<close>

definition legacy_settings :: jsval where
  "legacy_settings =
     Obj [''apiKey'' \<mapsto> Str '' a '', ''openAIapiKey'' \<mapsto> Str ''b'',
          ''textProvider'' \<mapsto> Str ''2'', ''maxTokens'' \<mapsto> Num (Fin 500),
          ''imgFolder'' \<mapsto> Str ''AiAssistant/Assets'']"

section \<open>Lemmas on strings\<close>

lemma trim_blank: "list_all is_whitespace s \<Longrightarrow> trim s = []"
  by (auto simp: trim_def list_all_iff dest: set_dropWhileD)

lemma trim_empty_iff: "trim s = [] \<longleftrightarrow> list_all is_whitespace s"
proof
  assume "trim s = []"
  then have "dropWhile is_whitespace (rev (dropWhile is_whitespace s)) = []"
    by (simp add: trim_def)
  then have "\<forall>x \<in> set (dropWhile is_whitespace s). is_whitespace x"
    by simp
  moreover have "dropWhile is_whitespace s \<noteq> [] \<Longrightarrow>
      \<not> is_whitespace (hd (dropWhile is_whitespace s))"
    by (rule hd_dropWhile)
  ultimately have "dropWhile is_whitespace s = []"
    by (cases "dropWhile is_whitespace s") auto
  then show "list_all is_whitespace s"
    by (simp add: list_all_iff)
qed (rule trim_blank)

section \<open>Lemmas on regular expressions\<close>

lemma match_here_lit:
  "match_here ic (lit w @ p) s \<longleftrightarrow>
     (\<exists>s1 s2. s = s1 @ s2 \<and> list_all2 (char_matches ic) w s1 \<and> match_here ic p s2)"
proof (induction w arbitrary: s)
  case Nil
  then show ?case by (simp add: lit_def)
next
  case (Cons c w)
  show ?case
  proof (cases s)
    case Nil
    then show ?thesis by (simp add: lit_def)
  next
    case (Cons x xs)
    have "match_here ic (lit (c # w) @ p) s \<longleftrightarrow> char_matches ic c x \<and> match_here ic (lit w @ p) xs"
      by (simp add: lit_def Cons)
    also have "\<dots> \<longleftrightarrow> char_matches ic c x \<and>
        (\<exists>s1 s2. xs = s1 @ s2 \<and> list_all2 (char_matches ic) w s1 \<and> match_here ic p s2)"
      by (simp only: Cons.IH)
    also have "\<dots> \<longleftrightarrow> (\<exists>s1 s2. s = s1 @ s2 \<and> list_all2 (char_matches ic) (c # w) s1 \<and> match_here ic p s2)"
      (is "?L \<longleftrightarrow> ?R")
    proof
      assume ?L
      then obtain s1 s2 where "char_matches ic c x" "xs = s1 @ s2"
        "list_all2 (char_matches ic) w s1" "match_here ic p s2" by blast
      then have "s = (x # s1) @ s2 \<and> list_all2 (char_matches ic) (c # w) (x # s1) \<and> match_here ic p s2"
        by (simp add: Cons)
      then show ?R by blast
    next
      assume ?R
      then obtain s1 s2 where h: "s = s1 @ s2" "list_all2 (char_matches ic) (c # w) s1" "match_here ic p s2"
        by blast
      then obtain y ys where s1: "s1 = y # ys" "char_matches ic c y" "list_all2 (char_matches ic) w ys"
        by (auto simp: list_all2_Cons1)
      with h Cons show ?L by auto
    qed
    finally show ?thesis .
  qed
qed

lemma rx_test_iff:
  "rx_test ic alts s \<longleftrightarrow> (\<exists>pre t. s = pre @ t \<and> list_ex (\<lambda>p. match_here ic p t) alts)"
proof (induction s)
  case Nil
  then show ?case by simp
next
  case (Cons x xs)
  show ?case
  proof
    assume "rx_test ic alts (x # xs)"
    then consider "list_ex (\<lambda>p. match_here ic p (x # xs)) alts" | "rx_test ic alts xs" by auto
    then show "\<exists>pre t. x # xs = pre @ t \<and> list_ex (\<lambda>p. match_here ic p t) alts"
    proof cases
      case 1
      then have "x # xs = [] @ (x # xs) \<and> list_ex (\<lambda>p. match_here ic p (x # xs)) alts" by simp
      then show ?thesis by blast
    next
      case 2
      then obtain pre t where "xs = pre @ t" "list_ex (\<lambda>p. match_here ic p t) alts"
        using Cons.IH by blast
      then have "x # xs = (x # pre) @ t \<and> list_ex (\<lambda>p. match_here ic p t) alts" by simp
      then show ?thesis by blast
    qed
  next
    assume "\<exists>pre t. x # xs = pre @ t \<and> list_ex (\<lambda>p. match_here ic p t) alts"
    then obtain pre t where h: "x # xs = pre @ t" "list_ex (\<lambda>p. match_here ic p t) alts" by blast
    show "rx_test ic alts (x # xs)"
    proof (cases pre)
      case Nil
      with h have "t = x # xs" by simp
      with h(2) show ?thesis by simp
    next
      case (Cons y ys)
      with h have "xs = ys @ t" by simp
      with h(2) have "rx_test ic alts xs" using Cons.IH by blast
      then show ?thesis by simp
    qed
  qed
qed


lemma list_all2_char_matches_ci:
  "list_all2 (char_matches True) w s1 \<longleftrightarrow> map canonicalize w = map canonicalize s1"
proof (induction w arbitrary: s1)
  case Nil
  then show ?case by simp
next
  case (Cons c w)
  then show ?case by (cases s1) (simp_all add: char_matches_def)
qed

lemma list_all2_char_matches_cs:
  "list_all2 (char_matches False) w s1 \<longleftrightarrow> w = s1"
proof (induction w arbitrary: s1)
  case Nil
  then show ?case by auto
next
  case (Cons c w)
  then show ?case by (cases s1) (simp_all add: char_matches_def)
qed

lemma match_here_lit_only:
  "match_here ic (lit w) s \<longleftrightarrow> (\<exists>s1 s2. s = s1 @ s2 \<and> list_all2 (char_matches ic) w s1)"
  using match_here_lit [of ic w "[]" s] by simp

lemma rx_test_lit:
  "rx_test ic [lit w] s \<longleftrightarrow>
     (\<exists>pre s1 s2. s = pre @ s1 @ s2 \<and> list_all2 (char_matches ic) w s1)"
  by (simp add: rx_test_iff match_here_lit_only) blast

lemma rx_test_lit_ci: "rx_test True [lit w] s \<longleftrightarrow> contains_ci w s"
proof
  assume "rx_test True [lit w] s"
  then obtain pre s1 s2 where "s = pre @ s1 @ s2" "map canonicalize w = map canonicalize s1"
    by (auto simp: rx_test_lit list_all2_char_matches_ci)
  then have "map canonicalize s = map canonicalize pre @ map canonicalize w @ map canonicalize s2"
    by simp
  then show "contains_ci w s"
    unfolding contains_ci_def sublist_def by blast
next
  assume "contains_ci w s"
  then obtain ps ss where h: "map canonicalize s = ps @ map canonicalize w @ ss"
    unfolding contains_ci_def sublist_def by blast
  from h [unfolded map_eq_append_conv]
  obtain pre r where 1: "s = pre @ r" "map canonicalize r = map canonicalize w @ ss"
    by metis
  from 1(2) [unfolded map_eq_append_conv]
  obtain s1 s2 where 2: "r = s1 @ s2" "map canonicalize s1 = map canonicalize w"
    by metis
  from 1 2 have "s = pre @ s1 @ s2 \<and> list_all2 (char_matches True) w s1"
    by (simp add: list_all2_char_matches_ci)
  then show "rx_test True [lit w] s"
    unfolding rx_test_lit by blast
qed

lemma rx_test_lit_cs: "rx_test False [lit w] s \<longleftrightarrow> contains w s"
  unfolding rx_test_lit list_all2_char_matches_cs contains_def sublist_def by blast

lemma rx_test_alts: "rx_test ic alts s \<longleftrightarrow> list_ex (\<lambda>p. rx_test ic [p] s) alts"
  unfolding rx_test_iff list_ex_iff by auto

lemma match_here_Cls:
  "match_here ic (Cls cs # q) s \<longleftrightarrow> list_ex (\<lambda>c. match_here ic (Chr c # q) s) cs"
  by (cases s) (auto simp: list_ex_iff)

lemma lit_append: "lit (a @ b) = lit a @ lit b"
  by (simp add: lit_def)

lemma lit_Cons: "lit (c # b) = Chr c # lit b"
  by (simp add: lit_def)

lemma match_here_lit_Cls:
  "match_here ic (lit a @ Cls cs # q) s \<longleftrightarrow>
     list_ex (\<lambda>c. match_here ic (lit (a @ [c]) @ q) s) cs"
proof -
  have eq: "\<And>c. lit (a @ [c]) @ q = lit a @ Chr c # q" by (simp add: lit_def)
  show ?thesis
    unfolding eq match_here_lit [of ic a] match_here_Cls [of ic cs] list_ex_iff by blast
qed

lemma match_here_lit_Opt_Cls:
  "match_here ic (lit a @ Opt (Cls cs) # q) s \<longleftrightarrow>
     match_here ic (lit a @ q) s \<or> list_ex (\<lambda>c. match_here ic (lit (a @ [c]) @ q) s) cs"
proof -
  have "match_here ic (lit a @ Opt (Cls cs) # q) s \<longleftrightarrow>
      match_here ic (lit a @ Cls cs # q) s \<or> match_here ic (lit a @ q) s"
    unfolding match_here_lit [of ic a] match_here.simps(4) by blast
  then show ?thesis
    unfolding match_here_lit_Cls by blast
qed

lemma rx_test_single:
  "rx_test ic [p] s \<longleftrightarrow> (\<exists>pre t. s = pre @ t \<and> match_here ic p t)"
  by (simp add: rx_test_iff)

lemma rx_test_lit_Cls:
  "rx_test ic [lit a @ [Cls cs]] s \<longleftrightarrow> list_ex (\<lambda>c. rx_test ic [lit (a @ [c])] s) cs"
  unfolding rx_test_single list_ex_iff
  using match_here_lit_Cls [of ic a cs "[]", unfolded list_ex_iff] by (simp add: lit_append) blast

lemma rx_test_lit_Opt_Cls:
  "rx_test ic [lit a @ Opt (Cls cs) # lit b] s \<longleftrightarrow>
     rx_test ic [lit (a @ b)] s \<or> list_ex (\<lambda>c. rx_test ic [lit (a @ c # b)] s) cs"
proof -
  have e1: "lit a @ lit b = lit (a @ b)" by (simp add: lit_def)
  have e2: "\<And>c. lit (a @ [c]) @ lit b = lit (a @ c # b)" by (simp add: lit_def)
  have "rx_test ic [lit a @ Opt (Cls cs) # lit b] s \<longleftrightarrow>
      (\<exists>pre t. s = pre @ t \<and> match_here ic (lit a @ Opt (Cls cs) # lit b) t)"
    by (rule rx_test_single)
  also have "\<dots> \<longleftrightarrow> (\<exists>pre t. s = pre @ t \<and>
      (match_here ic (lit (a @ b)) t \<or> (\<exists>c\<in>set cs. match_here ic (lit (a @ c # b)) t)))"
    by (simp only: match_here_lit_Opt_Cls list_ex_iff e1 e2)
  also have "\<dots> \<longleftrightarrow> (\<exists>pre t. s = pre @ t \<and> match_here ic (lit (a @ b)) t)
      \<or> (\<exists>c\<in>set cs. \<exists>pre t. s = pre @ t \<and> match_here ic (lit (a @ c # b)) t)"
    by blast
  also have "\<dots> \<longleftrightarrow> rx_test ic [lit (a @ b)] s \<or> list_ex (\<lambda>c. rx_test ic [lit (a @ c # b)] s) cs"
    by (simp only: rx_test_single list_ex_iff)
  finally show ?thesis .
qed

lemma MAX_TOKENS_RX_iff:
  "rx_test True MAX_TOKENS_RX h \<longleftrightarrow>
     contains_ci ''maxtokens'' h \<or> contains_ci ''max_tokens'' h \<or> contains_ci ''max-tokens'' h
     \<or> contains_ci ''max_completion_tokens'' h"
proof -
  have "rx_test True MAX_TOKENS_RX h \<longleftrightarrow>
      rx_test True [lit ''max'' @ Opt (Cls ''_-'') # lit ''tokens''] h
      \<or> rx_test True [lit ''max_completion_tokens''] h"
    unfolding MAX_TOKENS_RX_def by (subst rx_test_alts) simp
  then show ?thesis
    unfolding rx_test_lit_Opt_Cls rx_test_lit_ci by simp
qed

lemma REASONING_RX_iff:
  "rx_test False REASONING_RX m \<longleftrightarrow> contains ''o1'' m \<or> contains ''o2'' m \<or> contains ''o4'' m"
proof -
  have eq: "REASONING_RX = [lit ''o'' @ [Cls ''124'']]"
    by (simp add: REASONING_RX_def lit_def)
  show ?thesis
    unfolding eq rx_test_lit_Cls rx_test_lit_cs by simp
qed

lemma ANTHROPIC_RX_iff: "rx_test True ANTHROPIC_RX u \<longleftrightarrow> contains_ci ''anthropic.com'' u"
  by (simp add: ANTHROPIC_RX_def rx_test_lit_ci)

section \<open>Lemmas on the text call\<close>

lemma sendRequest_requests:
  "requests (snd (sendRequest be a msgs st omit)) =
     requests st @ [build_params a msgs (innerHTML st \<noteq> None) omit]"
  by (simp add: sendRequest_def Let_def split: sum.split prod.split option.split)

lemma sendRequest_notices:
  "notices (snd (sendRequest be a msgs st omit)) = notices st"
  by (simp add: sendRequest_def Let_def split: sum.split prod.split option.split)

lemma sendRequest_streamMode:
  "(innerHTML (snd (sendRequest be a msgs st omit)) = None) = (innerHTML st = None)"
  by (simp add: sendRequest_def Let_def split: sum.split prod.split option.split)

lemma attempt_loop_omit:
  "attempt_loop be a msgs st True =
     (case sendRequest be a msgs st True of
        (Inr answer, st') \<Rightarrow> (answer, st')
      | (Inl err, st') \<Rightarrow> (None, st'\<lparr> notices := notices st' @ [display_error err] \<rparr>))"
  by (subst attempt_loop.simps) (simp split: prod.split sum.split)

lemma attempt_loop_include:
  "attempt_loop be a msgs st False =
     (case sendRequest be a msgs st False of
        (Inr answer, st') \<Rightarrow> (answer, st')
      | (Inl err, st') \<Rightarrow>
          if shouldRetryWithoutMaxTokens err then attempt_loop be a msgs st' True
          else (None, st'\<lparr> notices := notices st' @ [display_error err] \<rparr>))"
  by (subst attempt_loop.simps) (simp split: prod.split sum.split)

lemma attempt_loop_first_request:
  "\<exists>rest. requests (snd (attempt_loop be a msgs st omit)) =
     requests st @ build_params a msgs (innerHTML st \<noteq> None) omit # rest"
proof -
  obtain r1 st1 where s1: "sendRequest be a msgs st omit = (r1, st1)"
    by (cases "sendRequest be a msgs st omit")
  have q1: "requests st1 = requests st @ [build_params a msgs (innerHTML st \<noteq> None) omit]"
    using sendRequest_requests [of be a msgs st omit] s1 by simp
  obtain r2 st2 where s2: "sendRequest be a msgs st1 True = (r2, st2)"
    by (cases "sendRequest be a msgs st1 True")
  have q2: "requests st2 = requests st1 @ [build_params a msgs (innerHTML st1 \<noteq> None) True]"
    using sendRequest_requests [of be a msgs st1 True] s2 by simp
  show ?thesis
  proof (cases omit)
    case True
    then show ?thesis
      using s1 q1 by (simp add: attempt_loop_omit split: sum.split)
  next
    case False
    then show ?thesis
      using s1 q1 s2 q2 by (simp add: attempt_loop_include attempt_loop_omit split: sum.split)
  qed
qed

lemma build_params_omit:
  "p_max_tokens (build_params a msgs sm True) = None
   \<and> p_max_completion_tokens (build_params a msgs sm True) = None"
  by (simp add: build_params_def Let_def)

lemma build_params_model: "p_model (build_params a msgs sm omit) = call_model a msgs"
  by (simp add: build_params_def Let_def)

lemma build_params_not_included:
  "\<not> includeMaxTokens a \<Longrightarrow>
   p_max_tokens (build_params a msgs sm omit) = None
   \<and> p_max_completion_tokens (build_params a msgs sm omit) = None"
  by (simp add: build_params_def Let_def)

lemma build_params_included:
  "includeMaxTokens a \<Longrightarrow>
   (if contains ''o1'' (call_model a msgs) \<or> contains ''o2'' (call_model a msgs)
       \<or> contains ''o4'' (call_model a msgs)
    then p_max_completion_tokens (build_params a msgs sm False) = Some (oa_maxTokens a)
         \<and> p_max_tokens (build_params a msgs sm False) = None
    else p_max_tokens (build_params a msgs sm False) = Some (oa_maxTokens a)
         \<and> p_max_completion_tokens (build_params a msgs sm False) = None)"
  by (simp add: build_params_def Let_def REASONING_RX_iff)

lemma text_api_call_first_request:
  "\<exists>rest. requests (snd (text_api_call be a msgs htmlEl)) =
     build_params a msgs (htmlEl \<noteq> None) (\<not> includeMaxTokens a) # rest"
  using attempt_loop_first_request
    [of be a msgs "\<lparr> innerHTML = htmlEl, notices = [], requests = [] \<rparr>" "\<not> includeMaxTokens a"]
  by (simp add: text_api_call_def)

lemmas run_call =
  text_api_call_def attempt_loop_omit attempt_loop_include sendRequest_def build_params_def
  includeMaxTokens_def isFinite_def call_model_def has_img_def assistant_500_def
  new_OpenAIAssistant_def user_message_def accepting_backend_def rejecting_backend_def
  failing_backend_def REASONING_RX_def char_matches_def DEFAULT_TEXT_MODEL_def
  OAI_IMAGE_CAPABLE_MODELS_def Let_def stream_step_def

lemma contains_code: "contains w s = rx_test False [lit w] s"
  by (simp add: rx_test_lit_cs)

lemma contains_ci_code: "contains_ci w s = rx_test True [lit w] s"
  by (simp add: rx_test_lit_ci)





lemma sendRequest_notices':
  "sendRequest be a msgs st omit = (r, st') \<Longrightarrow> notices st' = notices st"
  using sendRequest_notices [of be a msgs st omit] by simp

lemma sendRequest_streamMode':
  "sendRequest be a msgs st omit = (r, st') \<Longrightarrow> (innerHTML st' = None) = (innerHTML st = None)"
  using sendRequest_streamMode [of be a msgs st omit] by simp


lemma shouldRetryWithoutMaxTokens_iff:
  "shouldRetryWithoutMaxTokens err \<longleftrightarrow>
     contains_ci ''max_tokens'' (join '' '' (error_parts err))
     \<or> contains_ci ''max-tokens'' (join '' '' (error_parts err))
     \<or> contains_ci ''maxtokens'' (join '' '' (error_parts err))
     \<or> contains_ci ''max_completion_tokens'' (join '' '' (error_parts err))"
  unfolding shouldRetryWithoutMaxTokens_def MAX_TOKENS_RX_iff by blast

lemma text_api_call_not_included:
  "\<not> includeMaxTokens a \<Longrightarrow>
   requests (snd (text_api_call be a msgs htmlEl)) = [build_params a msgs (htmlEl \<noteq> None) True]"
proof -
  assume n: "\<not> includeMaxTokens a"
  obtain r1 st1 where s1:
    "sendRequest be a msgs \<lparr> innerHTML = htmlEl, notices = [], requests = [] \<rparr> True = (r1, st1)"
    by (cases "sendRequest be a msgs \<lparr> innerHTML = htmlEl, notices = [], requests = [] \<rparr> True")
  have q1: "requests st1 = [build_params a msgs (htmlEl \<noteq> None) True]"
    using sendRequest_requests [of be a msgs "\<lparr> innerHTML = htmlEl, notices = [], requests = [] \<rparr>" True]
      s1 by simp
  show ?thesis
    using n s1 q1 by (simp add: text_api_call_def attempt_loop_omit split: sum.split)
qed

section \<open>Lemmas on the factory and the resolver\<close>

lemma whitespace_not_A: "is_whitespace c \<Longrightarrow> canonicalize c \<noteq> CHR ''A''"
  unfolding is_whitespace_def by (elim disjE) (simp_all add: canonicalize_def)

lemma blank_contains_no_letter:
  assumes "list_all is_whitespace s"
  shows "\<not> contains_ci (CHR ''a'' # w) s"
proof
  assume "contains_ci (CHR ''a'' # w) s"
  then have "set (map canonicalize (CHR ''a'' # w)) \<subseteq> set (map canonicalize s)"
    unfolding contains_ci_def by (rule set_mono_sublist)
  then have "canonicalize CHR ''a'' \<in> canonicalize ` set s" by simp
  moreover have "canonicalize CHR ''a'' = CHR ''A''"
    by (simp add: canonicalize_def)
  ultimately obtain c where "c \<in> set s" "canonicalize c = CHR ''A''"
    by auto
  with assms whitespace_not_A show False
    by (auto simp: list_all_iff)
qed

lemma is_anthropic_createAssistant:
  "is_anthropic (createAssistant settings apiKey baseUrl) \<longleftrightarrow>
     contains_ci ''anthropic.com'' (if baseUrl = [] then DEFAULT_API_BASE_URL else baseUrl)"
  by (simp add: createAssistant_def Let_def ANTHROPIC_RX_iff)

lemma default_url_not_anthropic: "\<not> contains_ci ''anthropic.com'' DEFAULT_API_BASE_URL"
  by (simp add: contains_ci_code DEFAULT_API_BASE_URL_def lit_def char_matches_def canonicalize_def)

lemma normalizeProviderSlot_Num:
  "\<exists>slot. normalizeProviderSlot (Num n) = Inr slot"
  by (simp add: normalizeProviderSlot_def and_then_def Let_def)

lemma resolveSlot_blank_key:
  assumes "list_all is_whitespace (case slot of One \<Rightarrow> apiKey1 settings | Two \<Rightarrow> apiKey2 settings)"
    and "slotCache slot = None \<or> slotCache slot = Some None"
  shows "fst (resolveSlot settings slotCache slot) = None"
  using assms
  by (auto simp: resolveSlot_def getProviderConfig_def Let_def trim_blank split: option.splits)

lemma resolveSlot_cache:
  "snd (resolveSlot settings Map.empty slot) slot' =
     (if slot' = slot then Some (fst (resolveSlot settings Map.empty slot)) else None)"
  by (simp add: resolveSlot_def Let_def)

section \<open>Lemmas on numbers and their strings\<close>

lemma trim_idem: "trim (trim s) = trim s"
proof -
  define t where "t = dropWhile is_whitespace s"
  define r where "r = dropWhile is_whitespace (rev t)"
  have ht: "t \<noteq> [] \<Longrightarrow> \<not> is_whitespace (hd t)"
    unfolding t_def by (rule hd_dropWhile)
  have ri: "dropWhile is_whitespace r = r"
    unfolding r_def by (rule dropWhile_idem)
  have "suffix r (rev t)"
    unfolding r_def by (rule suffix_dropWhile)
  then obtain zs where "rev t = zs @ r"
    by (auto simp: suffix_def)
  then have t: "t = rev r @ rev zs"
    by (metis rev_append rev_rev_ident)
  have "dropWhile is_whitespace (rev r) = rev r"
  proof (cases "rev r")
    case Nil
    then show ?thesis by simp
  next
    case (Cons x xs)
    with t have "t \<noteq> []" "hd t = x" by simp_all
    with ht have "\<not> is_whitespace x" by simp
    with Cons show ?thesis by simp
  qed
  then have "trim (rev r) = rev r"
    by (simp add: trim_def ri)
  moreover have "trim s = rev r"
    by (simp add: trim_def t_def r_def)
  ultimately show ?thesis by simp
qed

lemma digit_cases:
  "d < 10 \<Longrightarrow> d = 0 \<or> d = 1 \<or> d = 2 \<or> d = 3 \<or> d = 4 \<or> d = 5 \<or> d = 6 \<or> d = 7 \<or> d = 8 \<or> d = (9::nat)"
  by arith

lemma digit_char_props:
  assumes "d < 10"
  shows "is_digit (digit_char d)" "digit_val (digit_char d) = d"
    "\<not> is_whitespace (digit_char d)" "digit_char d \<noteq> CHR ''-''" "digit_char d \<noteq> CHR ''+''"
  using digit_cases [OF assms]
  by (elim disjE; simp add: digit_char_def is_digit_def digit_val_def is_whitespace_def)+

lemma dec_nonempty: "dec n \<noteq> []"
  by (subst dec.simps) simp

lemma dec_digits: "list_all is_digit (dec n)"
proof (induction n rule: dec.induct)
  case (1 n)
  show ?case
  proof (cases "n < 10")
    case True
    then show ?thesis by (subst dec.simps) (simp add: digit_char_props)
  next
    case False
    with 1 show ?thesis by (subst dec.simps) (simp add: digit_char_props)
  qed
qed

lemma digits_value_snoc: "digits_value (z @ [c]) = 10 * digits_value z + digit_val c"
  by (simp add: digits_value_def)

lemma digits_value_dec: "digits_value (dec n) = n"
proof (induction n rule: dec.induct)
  case (1 n)
  show ?case
  proof (cases "n < 10")
    case True
    then show ?thesis
      by (subst dec.simps) (simp add: digits_value_def digit_char_props)
  next
    case False
    with 1 have "digits_value (dec (n div 10)) = n div 10" by simp
    with False show ?thesis
      by (subst dec.simps) (simp add: digits_value_snoc digit_char_props)
  qed
qed

lemma hd_dec: "is_digit (hd (dec n))"
  using dec_digits [of n] dec_nonempty [of n] by (cases "dec n") simp_all

lemma is_digit_not_special:
  "is_digit c \<Longrightarrow> \<not> is_whitespace c \<and> c \<noteq> CHR ''-'' \<and> c \<noteq> CHR ''+''"
  unfolding is_whitespace_def by (auto simp: is_digit_def)

lemma parseInt_dec: "parseInt (dec n) = to_number (int n)"
proof -
  obtain c cs where d: "dec n = c # cs"
    using dec_nonempty [of n] by (cases "dec n") auto
  with hd_dec [of n] have c: "is_digit c" by simp
  then have s: "\<not> is_whitespace c" "c \<noteq> CHR ''-''" "c \<noteq> CHR ''+''"
    using is_digit_not_special by blast+
  have t: "takeWhile is_digit cs = cs"
    using dec_digits [of n] d by (simp add: list_all_iff)
  have v: "digits_value (c # cs) = n"
    using digits_value_dec [of n] d by simp
  show ?thesis
    by (simp add: parseInt_def d Let_def s c t v)
qed

lemma parseInt_number_to_string:
  "0 \<le> n \<Longrightarrow> n < 10 ^ 21 \<Longrightarrow> parseInt (number_to_string (Fin n)) = Fin n"
proof -
  assume a: "0 \<le> n" "n < 10 ^ 21"
  then have "nat n < 10 ^ 21"
    by (simp add: nat_less_iff)
  then have "number_to_string (Fin n) = dec (nat n)"
    using a by (simp add: nat_to_string_def)
  moreover have "to_number n = Fin n"
    using a by (simp add: to_number_def)
  ultimately show ?thesis
    using a by (simp add: parseInt_dec)
qed

section \<open>Lemmas on values\<close>


lemma and_then_Inl: "and_then r f = Inl e \<longleftrightarrow> r = Inl e \<or> (\<exists>x. r = Inr x \<and> f x = Inl e)"
  by (cases r) (simp_all add: and_then_def)




section \<open>The Anthropic base URL\<close>

lemma normalizeBaseUrl_blank:
  "list_all is_whitespace b \<Longrightarrow> normalizeBaseUrl b = DEFAULT_API_BASE_URL"
  by (simp add: normalizeBaseUrl_def trim_blank strip_trailing_slash_def DEFAULT_API_BASE_URL_def)

lemma new_AnthropicAssistant_blank:
  "list_all is_whitespace b \<Longrightarrow>
   an_baseUrl (new_AnthropicAssistant k b m t) = DEFAULT_API_BASE_URL"
  by (simp add: new_AnthropicAssistant_def normalizeBaseUrl_blank DEFAULT_API_BASE_URL_def)


section \<open>The token-limit parameter of a request\<close>

text \<open>
  C6, as the code has it. The first request of every OpenAI-compatible text call carries a
  token limit exactly when the configured limit is finite and greater than 0. When it does,
  the limit is sent as \<^verbatim>\<open>max_completion_tokens\<close> if the model of the request contains
  \<^verbatim>\<open>o1\<close>, \<^verbatim>\<open>o2\<close> or \<^verbatim>\<open>o4\<close> at any position, and as \<^verbatim>\<open>max_tokens\<close> otherwise; the
  other name is not set.
\<close>

theorem token_limit_parameter_of_first_request:
  "requests (snd (text_api_call be a msgs htmlEl)) \<noteq> []
   \<and> (let p = hd (requests (snd (text_api_call be a msgs htmlEl))); limit = oa_maxTokens a
      in ((p_max_tokens p \<noteq> None \<or> p_max_completion_tokens p \<noteq> None)
            \<longleftrightarrow> isFinite limit \<and> num_less (Fin 0) limit)
         \<and> (isFinite limit \<and> num_less (Fin 0) limit \<longrightarrow>
              (if contains ''o1'' (p_model p) \<or> contains ''o2'' (p_model p) \<or> contains ''o4'' (p_model p)
               then p_max_completion_tokens p = Some limit \<and> p_max_tokens p = None
               else p_max_tokens p = Some limit \<and> p_max_completion_tokens p = None)))"
proof -
  obtain rest where r: "requests (snd (text_api_call be a msgs htmlEl)) =
      build_params a msgs (htmlEl \<noteq> None) (\<not> includeMaxTokens a) # rest"
    using text_api_call_first_request by blast
  show ?thesis
  proof (cases "includeMaxTokens a")
    case True
    with build_params_included [OF True, of msgs "htmlEl \<noteq> None"] r show ?thesis
      by (auto simp: Let_def build_params_model includeMaxTokens_def)
  next
    case False
    with build_params_not_included [OF False, of msgs "htmlEl \<noteq> None" True] r show ?thesis
      by (auto simp: Let_def includeMaxTokens_def)
  qed
qed

theorem token_limit_parameter_of_first_request_witness:
  "isFinite (oa_maxTokens (assistant_500 ''o1-mini''))
   \<and> num_less (Fin 0) (oa_maxTokens (assistant_500 ''o1-mini''))
   \<and> p_max_completion_tokens
        (hd (requests (snd (text_api_call accepting_backend (assistant_500 ''o1-mini'')
           [user_message] None)))) = Some (Fin 500)
   \<and> p_max_tokens
        (hd (requests (snd (text_api_call accepting_backend (assistant_500 ''o1-mini'')
           [user_message] None)))) = None"
proof -
  have m: "p_model (hd (requests (snd (text_api_call accepting_backend (assistant_500 ''o1-mini'')
      [user_message] None)))) = ''o1-mini''"
    by (simp add: run_call)
  have l: "oa_maxTokens (assistant_500 ''o1-mini'') = Fin 500"
    by (simp add: assistant_500_def new_OpenAIAssistant_def)
  have c: "contains ''o1'' ''o1-mini''"
    by (simp add: contains_code lit_def char_matches_def)
  show ?thesis
    using token_limit_parameter_of_first_request
      [of accepting_backend "assistant_500 ''o1-mini''" "[user_message]" None]
    by (simp add: Let_def m l c isFinite_def)
qed

text \<open>
  C6, as stated, fails: the model identifier \<^verbatim>\<open>openai/o1\<close> has none of the prefixes
  \<^verbatim>\<open>o1\<close>, \<^verbatim>\<open>o2\<close>, \<^verbatim>\<open>o4\<close>, and its limit is sent as \<^verbatim>\<open>max_completion_tokens\<close>: the
  pattern is not anchored at the start of the identifier.
\<close>

theorem reasoning_pattern_is_not_a_prefix:
  "\<not> prefix ''o1'' ''openai/o1'' \<and> \<not> prefix ''o2'' ''openai/o1'' \<and> \<not> prefix ''o4'' ''openai/o1''
   \<and> requests (snd (text_api_call accepting_backend (assistant_500 ''openai/o1'') [user_message] None))
       = [\<lparr> p_messages = [user_message], p_model = ''openai/o1'', p_stream = False,
             p_max_tokens = None, p_max_completion_tokens = Some (Fin 500) \<rparr>]"
  by (simp add: run_call)

section \<open>Streaming aggregation\<close>



section \<open>Retry without the token limit\<close>

text \<open>
  C1, as the code has it. Take an OpenAI-compatible text call whose first request carries
  the token limit, \<open>r1\<close> the outcome of that request and \<open>r2\<close> the outcome of a second
  request made with the limit omitted. If the first request succeeds, its answer is returned.
  If it fails with an error that \<open>shouldRetryWithoutMaxTokens\<close> accepts, exactly one more
  request is made, without either token-limit parameter, and the call returns its answer, or,
  if it fails too, shows a notice and returns nothing. If the first request fails with any
  other error, no second request is made, a notice is shown and nothing is returned. The
  errors accepted are those whose message, code and body, joined by spaces, contain one of
  \<^verbatim>\<open>max_tokens\<close>, \<^verbatim>\<open>max-tokens\<close>, \<^verbatim>\<open>maxtokens\<close> and \<^verbatim>\<open>max_completion_tokens\<close>, letter
  case ignored.
\<close>

theorem retry_without_token_limit:
  assumes "includeMaxTokens a"
    and "sendRequest be a msgs \<lparr> innerHTML = htmlEl, notices = [], requests = [] \<rparr> False = (r1, st1)"
    and "sendRequest be a msgs st1 True = (r2, st2)"
  shows "text_api_call be a msgs htmlEl =
      (case r1 of
         Inr answer \<Rightarrow> (answer, st1)
       | Inl err \<Rightarrow>
           if shouldRetryWithoutMaxTokens err
           then (case r2 of
                   Inr answer \<Rightarrow> (answer, st2)
                 | Inl err2 \<Rightarrow> (None, st2\<lparr> notices := [display_error err2] \<rparr>))
           else (None, st1\<lparr> notices := [display_error err] \<rparr>))
    \<and> requests st1 = [build_params a msgs (htmlEl \<noteq> None) False]
    \<and> requests st2 = [build_params a msgs (htmlEl \<noteq> None) False,
                       build_params a msgs (htmlEl \<noteq> None) True]
    \<and> (p_max_tokens (build_params a msgs (htmlEl \<noteq> None) False) = Some (oa_maxTokens a)
        \<or> p_max_completion_tokens (build_params a msgs (htmlEl \<noteq> None) False) = Some (oa_maxTokens a))
    \<and> p_max_tokens (build_params a msgs (htmlEl \<noteq> None) True) = None
    \<and> p_max_completion_tokens (build_params a msgs (htmlEl \<noteq> None) True) = None
    \<and> notices st1 = [] \<and> notices st2 = []
    \<and> (\<forall>err. shouldRetryWithoutMaxTokens err \<longleftrightarrow>
          contains_ci ''max_tokens'' (join '' '' (error_parts err))
          \<or> contains_ci ''max-tokens'' (join '' '' (error_parts err))
          \<or> contains_ci ''maxtokens'' (join '' '' (error_parts err))
          \<or> contains_ci ''max_completion_tokens'' (join '' '' (error_parts err)))"
proof -
  let ?st0 = "\<lparr> innerHTML = htmlEl, notices = [], requests = [] \<rparr>"
  note n1 = sendRequest_notices' [OF assms(2)] and n2 = sendRequest_notices' [OF assms(3)]
  have q1: "requests st1 = [build_params a msgs (htmlEl \<noteq> None) False]"
    using sendRequest_requests [of be a msgs ?st0 False] assms(2) by simp
  have m1: "(innerHTML st1 \<noteq> None) = (htmlEl \<noteq> None)"
    using sendRequest_streamMode' [OF assms(2)] by simp
  have q2: "requests st2 = [build_params a msgs (htmlEl \<noteq> None) False,
      build_params a msgs (htmlEl \<noteq> None) True]"
    using sendRequest_requests [of be a msgs st1 True] assms(3) q1 m1 by simp
  have run: "text_api_call be a msgs htmlEl =
      (case r1 of
         Inr answer \<Rightarrow> (answer, st1)
       | Inl err \<Rightarrow>
           if shouldRetryWithoutMaxTokens err
           then (case r2 of
                   Inr answer \<Rightarrow> (answer, st2)
                 | Inl err2 \<Rightarrow> (None, st2\<lparr> notices := [display_error err2] \<rparr>))
           else (None, st1\<lparr> notices := [display_error err] \<rparr>))"
    using assms n1 n2
    by (simp add: text_api_call_def attempt_loop_include attempt_loop_omit split: sum.split)
  have inc: "p_max_tokens (build_params a msgs (htmlEl \<noteq> None) False) = Some (oa_maxTokens a)
        \<or> p_max_completion_tokens (build_params a msgs (htmlEl \<noteq> None) False) = Some (oa_maxTokens a)"
    using build_params_included [OF assms(1), of msgs "htmlEl \<noteq> None"]
    by (simp split: if_splits)
  show ?thesis
    using run q1 q2 inc build_params_omit [of a msgs "htmlEl \<noteq> None"] n1 n2
      shouldRetryWithoutMaxTokens_iff
    by simp
qed

theorem retry_without_token_limit_witness:
  "includeMaxTokens (assistant_500 ''gpt-4o-mini'')
   \<and> contains_ci ''max_tokens'' (join '' '' (error_parts max_tokens_rejection))
   \<and> sendRequest (rejecting_backend max_tokens_rejection) (assistant_500 ''gpt-4o-mini'')
        [user_message] \<lparr> innerHTML = None, notices = [], requests = [] \<rparr> False
       = (Inl max_tokens_rejection,
          \<lparr> innerHTML = None, notices = [],
            requests = [\<lparr> p_messages = [user_message], p_model = ''gpt-4o-mini'',
              p_stream = False, p_max_tokens = Some (Fin 500), p_max_completion_tokens = None \<rparr>] \<rparr>)
   \<and> text_api_call (rejecting_backend max_tokens_rejection) (assistant_500 ''gpt-4o-mini'')
        [user_message] None
       = (Some ''ok'',
          \<lparr> innerHTML = None, notices = [],
            requests = [\<lparr> p_messages = [user_message], p_model = ''gpt-4o-mini'',
              p_stream = False, p_max_tokens = Some (Fin 500), p_max_completion_tokens = None \<rparr>,
              \<lparr> p_messages = [user_message], p_model = ''gpt-4o-mini'',
              p_stream = False, p_max_tokens = None, p_max_completion_tokens = None \<rparr>] \<rparr>)"
proof -
  let ?be = "rejecting_backend max_tokens_rejection"
  let ?a = "assistant_500 ''gpt-4o-mini''"
  let ?p1 = "\<lparr> p_messages = [user_message], p_model = ''gpt-4o-mini'',
              p_stream = False, p_max_tokens = Some (Fin 500), p_max_completion_tokens = None \<rparr>"
  let ?p2 = "\<lparr> p_messages = [user_message], p_model = ''gpt-4o-mini'',
              p_stream = False, p_max_tokens = None, p_max_completion_tokens = None \<rparr>"
  let ?st1 = "\<lparr> innerHTML = None, notices = [], requests = [?p1] \<rparr>"
  let ?st2 = "\<lparr> innerHTML = None, notices = [], requests = [?p1, ?p2] \<rparr>"
  have inc: "includeMaxTokens ?a"
    by (simp add: run_call)
  have s1: "sendRequest ?be ?a [user_message] \<lparr> innerHTML = None, notices = [], requests = [] \<rparr> False
      = (Inl max_tokens_rejection, ?st1)"
    by (simp add: run_call)
  have s2: "sendRequest ?be ?a [user_message] ?st1 True = (Inr (Some ''ok''), ?st2)"
    by (simp add: run_call)
  have c: "contains_ci ''max_tokens'' (join '' '' (error_parts max_tokens_rejection))"
    by (simp add: contains_ci_code max_tokens_rejection_def lit_def char_matches_def canonicalize_def)
  from retry_without_token_limit [OF inc s1 s2] c
  have "text_api_call ?be ?a [user_message] None = (Some ''ok'', ?st2)"
    by simp
  with inc s1 c show ?thesis by simp
qed

text \<open>
  C1, as stated, fails: an error whose only text is
  \<^verbatim>\<open>Unsupported parameter: maxTokens\<close> contains neither \<^verbatim>\<open>max_tokens\<close> nor
  \<^verbatim>\<open>max_completion_tokens\<close>, and yet the call retries without the limit, shows no notice
  and returns the answer of the second request.
\<close>

theorem retry_on_camel_case_spelling:
  "\<not> contains_ci ''max_tokens'' ''Unsupported parameter: maxTokens''
   \<and> \<not> contains_ci ''max_completion_tokens'' ''Unsupported parameter: maxTokens''
   \<and> camel_case_rejection = APIError ''Unsupported parameter: maxTokens'' None None
   \<and> create (rejecting_backend camel_case_rejection) 0
        \<lparr> p_messages = [user_message], p_model = ''gpt-4o-mini'',
          p_stream = False, p_max_tokens = Some (Fin 500), p_max_completion_tokens = None \<rparr>
       = Inl camel_case_rejection
   \<and> text_api_call (rejecting_backend camel_case_rejection) (assistant_500 ''gpt-4o-mini'')
        [user_message] None
       = (Some ''ok'',
          \<lparr> innerHTML = None, notices = [],
            requests = [\<lparr> p_messages = [user_message], p_model = ''gpt-4o-mini'',
              p_stream = False, p_max_tokens = Some (Fin 500), p_max_completion_tokens = None \<rparr>,
              \<lparr> p_messages = [user_message], p_model = ''gpt-4o-mini'',
              p_stream = False, p_max_tokens = None, p_max_completion_tokens = None \<rparr>] \<rparr>)"
  by (simp add: run_call contains_ci_code camel_case_rejection_def lit_def canonicalize_def
      shouldRetryWithoutMaxTokens_def MAX_TOKENS_RX_def)

section \<open>A token limit of 0\<close>

text \<open>
  C3. With a limit of 0 the Anthropic assistant still sends the parameter: the body of its
  one request has \<^verbatim>\<open>max_tokens\<close> set to 0. The OpenAI-compatible assistant sends neither
  \<^verbatim>\<open>max_tokens\<close> nor \<^verbatim>\<open>max_completion_tokens\<close> in any request of the call.
\<close>

theorem anthropic_sends_max_tokens_zero:
  "snd (snd (anthropic_text_api_call request (new_AnthropicAssistant k u m (Fin 0)) msgs))
     = [(an_baseUrl (new_AnthropicAssistant k u m (Fin 0)) @ ''/messages'',
         anthropic_request_body (new_AnthropicAssistant k u m (Fin 0)) msgs)]
   \<and> b_max_tokens (anthropic_request_body (new_AnthropicAssistant k u m (Fin 0)) msgs) = Some (Fin 0)
   \<and> list_all (\<lambda>p. p_max_tokens p = None \<and> p_max_completion_tokens p = None)
        (requests (snd (text_api_call be (new_OpenAIAssistant k u m (Fin 0) sm) msgs htmlEl)))"
proof -
  have "\<not> includeMaxTokens (new_OpenAIAssistant k u m (Fin 0) sm)"
    by (simp add: includeMaxTokens_def new_OpenAIAssistant_def)
  from text_api_call_not_included [OF this] show ?thesis
    by (simp add: build_params_omit anthropic_text_api_call_def anthropic_request_body_def
        new_AnthropicAssistant_def Let_def split: sum.split)
qed

section \<open>The provider family\<close>

text \<open>
  C4, as the code has it. The factory constructs the Anthropic assistant exactly when the
  effective base URL, the given one or the compiled default when the given one is empty,
  contains \<^verbatim>\<open>anthropic.com\<close> at any position, letter case ignored; a URL that is empty or
  consists of white space gives the OpenAI-compatible assistant; and neither the key nor the
  settings influence the decision.
\<close>

theorem provider_family_decision:
  "(is_anthropic (createAssistant settings apiKey baseUrl) \<longleftrightarrow>
      contains_ci ''anthropic.com'' (if baseUrl = [] then DEFAULT_API_BASE_URL else baseUrl))
   \<and> (list_all is_whitespace baseUrl \<longrightarrow> \<not> is_anthropic (createAssistant settings apiKey baseUrl))
   \<and> is_anthropic (createAssistant settings' apiKey' baseUrl)
       = is_anthropic (createAssistant settings apiKey baseUrl)"
proof -
  have "\<not> is_anthropic (createAssistant settings apiKey baseUrl)" if "list_all is_whitespace baseUrl"
  proof (cases "baseUrl = []")
    case True
    then show ?thesis
      by (simp add: is_anthropic_createAssistant default_url_not_anthropic)
  next
    case False
    then show ?thesis
      using blank_contains_no_letter [OF that, of "''nthropic.com''"]
      by (simp add: is_anthropic_createAssistant)
  qed
  then show ?thesis
    by (simp add: is_anthropic_createAssistant)
qed

theorem provider_family_decision_witness:
  "list_all is_whitespace ''  ''
   \<and> \<not> is_anthropic (createAssistant (settings_with_keys ''sk-1'' []) ''sk-1'' ''  '')
   \<and> is_anthropic (createAssistant (settings_with_keys ''sk-1'' []) ''sk-1'' ''https://api.Anthropic.com/v1'')"
proof -
  let ?s = "settings_with_keys ''sk-1'' []"
  have b: "list_all is_whitespace ''  ''"
    by (simp add: is_whitespace_def)
  have c: "contains_ci ''anthropic.com'' ''https://api.Anthropic.com/v1''"
    by (simp add: contains_ci_code lit_def char_matches_def canonicalize_def)
  have n: "''https://api.Anthropic.com/v1'' \<noteq> []"
    by simp
  have 1: "\<not> is_anthropic (createAssistant ?s ''sk-1'' ''  '')"
    using provider_family_decision [of ?s "''sk-1''" "''  ''" ?s "''sk-1''"] b by blast
  have 2: "is_anthropic (createAssistant ?s ''sk-1'' ''https://api.Anthropic.com/v1'')"
    using provider_family_decision [of ?s "''sk-1''" "''https://api.Anthropic.com/v1''" ?s "''sk-1''"]
      c n by (simp only: if_False)
  from b 1 2 show ?thesis by blast
qed

text \<open>
  C4, as stated, fails: the host of \<^verbatim>\<open>https://corsproxy.io/?https://api.anthropic.com/v1\<close>
  is \<^verbatim>\<open>corsproxy.io\<close>, which does not contain \<^verbatim>\<open>anthropic.com\<close>, and the factory
  constructs the Anthropic assistant for it: the whole URL is searched, not its host.
\<close>

theorem anthropic_domain_outside_the_host:
  "url_host ''https://corsproxy.io/?https://api.anthropic.com/v1'' = ''corsproxy.io''
   \<and> \<not> contains_ci ''anthropic.com'' ''corsproxy.io''
   \<and> is_anthropic (createAssistant (settings_with_keys ''sk-1'' []) ''sk-1''
         ''https://corsproxy.io/?https://api.anthropic.com/v1'')"
  by (simp add: url_host_def createAssistant_def ANTHROPIC_RX_def contains_ci_code lit_def
      char_matches_def canonicalize_def)

section \<open>A capability without a key\<close>

text \<open>
  C9. When the slot that a capability is configured with, as \<open>normalizeProviderSlot\<close>
  reads it, has a key that is empty or consists of white space, the rebuild returns a
  capability map in which that capability has no assistant, and the commands of that
  capability show their notice instead of failing.
\<close>

theorem blank_key_capability_is_absent:
  assumes "normalizeProviderSlot
             (Num (case capability of Text \<Rightarrow> textProvider settings | Speech \<Rightarrow> speechProvider settings))
           = Inr slot"
    and "list_all is_whitespace (case slot of One \<Rightarrow> apiKey1 settings | Two \<Rightarrow> apiKey2 settings)"
  shows "\<exists>assistants. buildAssistants settings = Inr assistants
     \<and> assistants capability = None
     \<and> (capability = Text \<longrightarrow>
          chat_mode assistants
            = ShowNotice ''Configure a provider for chat in mini assistant settings.''
          \<and> prompt_mode assistants
            = ShowNotice ''Configure a provider for chat in mini assistant settings.'')
     \<and> (capability = Speech \<longrightarrow>
          speech_to_text settings assistants
            = ShowNotice ''Configure a provider for speech-to-text in mini assistant settings.'')"
proof -
  obtain textSlot where t: "normalizeProviderSlot (Num (textProvider settings)) = Inr textSlot"
    using normalizeProviderSlot_Num by blast
  obtain speechSlot where s: "normalizeProviderSlot (Num (speechProvider settings)) = Inr speechSlot"
    using normalizeProviderSlot_Num by blast
  let ?r1 = "resolveSlot settings Map.empty textSlot"
  let ?r2 = "resolveSlot settings (snd ?r1) speechSlot"
  let ?m = "\<lambda>capability. case capability of Text \<Rightarrow> fst ?r1 | Speech \<Rightarrow> fst ?r2"
  have b: "buildAssistants settings = Inr ?m"
    by (simp add: buildAssistants_def and_then_def t s Let_def)
  have "?m capability = None"
  proof (cases capability)
    case Text
    with assms t have "slot = textSlot" by simp
    with assms(2) show ?thesis
      using resolveSlot_blank_key [where slot = textSlot and settings = settings and slotCache = Map.empty] Text by simp
  next
    case Speech
    with assms s have e: "slot = speechSlot" by simp
    have "snd ?r1 speechSlot = None \<or> snd ?r1 speechSlot = Some None"
    proof (cases "speechSlot = textSlot")
      case True
      with assms(2) e have "fst ?r1 = None"
        using resolveSlot_blank_key [where slot = textSlot and settings = settings and slotCache = Map.empty] by simp
      with True show ?thesis by (simp add: resolveSlot_cache)
    next
      case False
      then show ?thesis by (simp add: resolveSlot_cache)
    qed
    with assms(2) e show ?thesis
      using resolveSlot_blank_key [where slot = speechSlot and settings = settings and slotCache = "snd ?r1"] Speech by simp
  qed
  then have "buildAssistants settings = Inr ?m \<and> ?m capability = None
     \<and> (capability = Text \<longrightarrow>
          chat_mode ?m = ShowNotice ''Configure a provider for chat in mini assistant settings.''
          \<and> prompt_mode ?m = ShowNotice ''Configure a provider for chat in mini assistant settings.'')
     \<and> (capability = Speech \<longrightarrow>
          speech_to_text settings ?m
            = ShowNotice ''Configure a provider for speech-to-text in mini assistant settings.'')"
    using b by (auto simp: chat_mode_def prompt_mode_def speech_to_text_def)
  then show ?thesis by blast
qed

theorem blank_key_capability_is_absent_witness:
  "normalizeProviderSlot (Num (textProvider (settings_with_keys ''   '' ''sk-2''))) = Inr One
   \<and> list_all is_whitespace (apiKey1 (settings_with_keys ''   '' ''sk-2''))
   \<and> (\<exists>assistants. buildAssistants (settings_with_keys ''   '' ''sk-2'') = Inr assistants
        \<and> assistants Text = None
        \<and> chat_mode assistants
            = ShowNotice ''Configure a provider for chat in mini assistant settings.'')"
proof -
  let ?s = "settings_with_keys ''   '' ''sk-2''"
  have n: "normalizeProviderSlot (Num (textProvider ?s)) = Inr One"
    by (simp add: settings_with_keys_def normalizeProviderSlot_def and_then_def nat_to_string_def
        dec.simps digit_char_def parseInt_def is_whitespace_def is_digit_def digits_value_def
        digit_val_def to_number_def)
  have b: "list_all is_whitespace (apiKey1 ?s)"
    by (simp add: settings_with_keys_def is_whitespace_def)
  have h1: "normalizeProviderSlot
      (Num (case Text of Text \<Rightarrow> textProvider ?s | Speech \<Rightarrow> speechProvider ?s)) = Inr One"
    using n by simp
  have h2: "list_all is_whitespace (case One of One \<Rightarrow> apiKey1 ?s | Two \<Rightarrow> apiKey2 ?s)"
    using b by simp
  from blank_key_capability_is_absent [OF h1 h2] n b show ?thesis
    by blast
qed

section \<open>Slot normalisation\<close>




end
